theory Spec2Isabelle
  imports Complex_Main "HOL-Library.AList"
begin

section \<open>Conventions of the embedding\<close>

text \<open>
  The development embeds \<^verbatim>\<open>src/austin_heller_repo/game_render_engine.py\<close>.

  \<^item> Python \<^verbatim>\<open>float\<close> values are idealised as real numbers: rounding, infinities and
    NaN are outside the model, so \<^verbatim>\<open>==\<close> on floats is equality of reals.
  \<^item> A \<^verbatim>\<open>datetime\<close> is the number of microseconds since the epoch.
  \<^item> A raised exception is a value of \<open>error\<close>. Where a function returns
    \<open>error + 'a\<close>, \<open>Inl e\<close> is the exception escaping the call, and the state the
    call leaves behind is not described. Where the state after the exception matters
    (\<^verbatim>\<open>apply_instance_deltas\<close>, the removal of flagged instances) the function returns the
    state it has reached together with \<open>error option\<close>.
  \<^item> A list of curves is a value: the list object a \<^verbatim>\<open>SetParallelCurves\<close> delta hands
    to an instance is not tracked as shared between the two.
  \<^item> Positions and rotations are the three-element lists made in
    \<^verbatim>\<open>RenderedInstance.__init__\<close>, their deltas are typed
    \<^verbatim>\<open>Tuple[float, float, float]\<close>; both are triples here and the inner loop over
    \<^verbatim>\<open>range(vector_length)\<close> is the componentwise operation on triples.
\<close>

datatype error =
  IndexError | KeyError | ValueError | NotImplementedError | RecursionError | Exception

type_synonym datetime = int

type_synonym vec3 = "real \<times> real \<times> real"

definition vec_add :: "vec3 \<Rightarrow> vec3 \<Rightarrow> vec3" where
  "vec_add v w = (case v of (a, b, c) \<Rightarrow> case w of (x, y, z) \<Rightarrow> (a + x, b + y, c + z))"

section \<open>The cached factorials\<close>

definition cached_factorials :: "nat list" where
  "cached_factorials =
     [1, 1, 2, 6, 24, 120, 720, 5040, 40320, 362880, 3628800, 39916800]"

text \<open>The index comes from \<^verbatim>\<open>enumerate\<close>, so it is never negative; past the table
  the list access raises.\<close>

definition get_cached_factorial :: "nat \<Rightarrow> error + nat" where
  "get_cached_factorial index =
     (if index < length cached_factorials then Inr (cached_factorials ! index)
      else Inl IndexError)"

section \<open>Curves\<close>

text \<open>Curve objects are immutable, and the code compares them by object identity
  (\<^verbatim>\<open>list.remove\<close>, membership of a \<^verbatim>\<open>set\<close>). The field \<open>curve_object\<close> stands for
  that identity: two values of the record are the same Python object exactly when they
  are equal.\<close>

record Curve =
  curve_object :: nat
  curve_uuid :: string
  position_deltas :: "vec3 list"
  rotation_deltas :: "vec3 list"
  scale_deltas :: "real list"
  opacity_deltas :: "real list"
  effective_time_seconds :: real
  is_controller_event_triggered_on_completed :: bool
  start_datetime :: datetime
  is_instance_removed_on_curve_completed :: bool
  restart_after_seconds :: "real option"

text \<open>The loop of \<^verbatim>\<open>Curve.__try_update_vector\<close>: the arguments are the elapsed time, the
  flag computed before the loop, the index of \<^verbatim>\<open>enumerate\<close>, the running power
  \<^verbatim>\<open>current_time_delta\<close>, the deltas still to visit and the pair of the scratch and the
  default vector.\<close>

fun try_update_vector_loop ::
  "real \<Rightarrow> bool \<Rightarrow> nat \<Rightarrow> real \<Rightarrow> vec3 list \<Rightarrow> vec3 \<times> vec3 \<Rightarrow> error + vec3 \<times> vec3" where
  "try_update_vector_loop time_delta needed index current_time_delta [] acc = Inr acc"
| "try_update_vector_loop time_delta needed index current_time_delta (vector_delta # rest)
     (vector, default_vector) =
     (case get_cached_factorial index of
        Inl e \<Rightarrow> Inl e
      | Inr factorial \<Rightarrow>
          (case vector_delta of (dx, dy, dz) \<Rightarrow>
             let current_vector_delta =
                   ((dx * current_time_delta) / real factorial,
                    (dy * current_time_delta) / real factorial,
                    (dz * current_time_delta) / real factorial)
             in try_update_vector_loop time_delta needed (Suc index)
                  (current_time_delta * time_delta) rest
                  (vec_add vector current_vector_delta,
                   if needed then vec_add default_vector current_vector_delta
                   else default_vector)))"

definition try_update_vector ::
  "Curve \<Rightarrow> real \<Rightarrow> vec3 \<Rightarrow> vec3 \<Rightarrow> vec3 list \<Rightarrow> error + bool \<times> vec3 \<times> vec3" where
  "try_update_vector self time_delta vector default_vector vector_deltas =
     (let is_default_vector_update_needed = (time_delta = effective_time_seconds self)
      in case try_update_vector_loop time_delta is_default_vector_update_needed 0 1
                vector_deltas (vector, default_vector) of
           Inl e \<Rightarrow> Inl e
         | Inr (vector', default_vector') \<Rightarrow>
             Inr (is_default_vector_update_needed, vector', default_vector'))"

text \<open>The loop of \<^verbatim>\<open>Curve.__try_update_float_reference\<close>; a \<^verbatim>\<open>FloatReference\<close> is a
  mutable cell holding one float, here the value it holds.\<close>

fun try_update_float_reference_loop ::
  "real \<Rightarrow> bool \<Rightarrow> nat \<Rightarrow> real \<Rightarrow> real list \<Rightarrow> real \<times> real \<Rightarrow> error + real \<times> real" where
  "try_update_float_reference_loop time_delta needed index current_time_delta [] acc = Inr acc"
| "try_update_float_reference_loop time_delta needed index current_time_delta
     (float_reference_delta # rest) (float_reference, default_float_reference) =
     (case get_cached_factorial index of
        Inl e \<Rightarrow> Inl e
      | Inr factorial \<Rightarrow>
          let current_float_reference_delta =
                (float_reference_delta * current_time_delta) / real factorial
          in try_update_float_reference_loop time_delta needed (Suc index)
               (current_time_delta * time_delta) rest
               (float_reference + current_float_reference_delta,
                if needed then default_float_reference + current_float_reference_delta
                else default_float_reference))"

definition try_update_float_reference ::
  "Curve \<Rightarrow> real \<Rightarrow> real \<Rightarrow> real \<Rightarrow> real list \<Rightarrow> error + bool \<times> real \<times> real" where
  "try_update_float_reference self time_delta float_reference default_float_reference
     float_reference_deltas =
     (let is_default_float_reference_update_needed =
            (time_delta = effective_time_seconds self)
      in case try_update_float_reference_loop time_delta
                is_default_float_reference_update_needed 0 1 float_reference_deltas
                (float_reference, default_float_reference) of
           Inl e \<Rightarrow> Inl e
         | Inr (float_reference', default_float_reference') \<Rightarrow>
             Inr (is_default_float_reference_update_needed, float_reference',
                  default_float_reference'))"

definition try_update_position ::
  "Curve \<Rightarrow> real \<Rightarrow> vec3 \<Rightarrow> vec3 \<Rightarrow> error + bool \<times> vec3 \<times> vec3" where
  "try_update_position self time_delta position default_position =
     try_update_vector self time_delta position default_position (position_deltas self)"

definition try_update_rotation ::
  "Curve \<Rightarrow> real \<Rightarrow> vec3 \<Rightarrow> vec3 \<Rightarrow> error + bool \<times> vec3 \<times> vec3" where
  "try_update_rotation self time_delta rotation default_rotation =
     try_update_vector self time_delta rotation default_rotation (rotation_deltas self)"

definition try_update_scale ::
  "Curve \<Rightarrow> real \<Rightarrow> real \<Rightarrow> real \<Rightarrow> error + bool \<times> real \<times> real" where
  "try_update_scale self time_delta scale default_scale =
     try_update_float_reference self time_delta scale default_scale (scale_deltas self)"

definition try_update_opacity ::
  "Curve \<Rightarrow> real \<Rightarrow> real \<Rightarrow> real \<Rightarrow> error + bool \<times> real \<times> real" where
  "try_update_opacity self time_delta opacity default_opacity =
     try_update_float_reference self time_delta opacity default_opacity (opacity_deltas self)"

subsection \<open>The closed form of the specification\<close>

text \<open>The sum \<open>\<Sum> delta[k] * t^k / k!\<close> over \<open>k = 0..n-1\<close>, as the specification writes
  it, for a scalar sequence and componentwise for a sequence of triples.\<close>

definition closed_form :: "real list \<Rightarrow> real \<Rightarrow> real" where
  "closed_form deltas t = (\<Sum>k<length deltas. deltas ! k * t ^ k / fact k)"

definition closed_form_vec :: "vec3 list \<Rightarrow> real \<Rightarrow> vec3" where
  "closed_form_vec deltas t =
     (closed_form (map fst deltas) t,
      closed_form (map (fst \<circ> snd) deltas) t,
      closed_form (map (snd \<circ> snd) deltas) t)"

section \<open>Instances and instance deltas\<close>

datatype EventTypeEnum = Collision | CurveCompleted | Key | MouseMoved

text \<open>The four subclasses of \<^verbatim>\<open>Instance\<close> with the field each one adds: the model uuid,
  the font uuid and the text, the image uuid, the client uuid.\<close>

datatype InstanceVariant =
  ModelInstance string
| TextInstance string string
| ImageInstance string
| CameraInstance string

record Instance =
  instance_uuid :: string
  variant :: InstanceVariant
  parallel_curves :: "Curve list"
  client_event_types :: "EventTypeEnum list"
  renderer_event_types :: "EventTypeEnum list"
  owner_render_engine_uuid :: string
  parent_instance_uuid :: "string option"

text \<open>\<^verbatim>\<open>list.remove(x)\<close> deletes the first element equal to \<open>x\<close> and raises
  \<^verbatim>\<open>ValueError\<close> when there is none.\<close>

definition remove_parallel_curve :: "Curve \<Rightarrow> Instance \<Rightarrow> error + Instance" where
  "remove_parallel_curve parallel_curve self =
     (if parallel_curve \<in> set (parallel_curves self)
      then Inr (self\<lparr>parallel_curves := remove1 parallel_curve (parallel_curves self)\<rparr>)
      else Inl ValueError)"

text \<open>The three subclasses of \<^verbatim>\<open>InstanceDelta\<close>; each constructor carries its own field,
  then \<^verbatim>\<open>instance_delta_uuid\<close> and \<^verbatim>\<open>instance_uuid\<close>.\<close>

datatype InstanceDelta =
  AppendParallelCurvesInstanceDelta "Curve list" string string
| SetParallelCurvesInstanceDelta "Curve list" string string
| SetTextInstanceDelta string string string

fun get_instance_delta_uuid :: "InstanceDelta \<Rightarrow> string" where
  "get_instance_delta_uuid (AppendParallelCurvesInstanceDelta cs d i) = d"
| "get_instance_delta_uuid (SetParallelCurvesInstanceDelta cs d i) = d"
| "get_instance_delta_uuid (SetTextInstanceDelta t d i) = d"

fun get_instance_uuid :: "InstanceDelta \<Rightarrow> string" where
  "get_instance_uuid (AppendParallelCurvesInstanceDelta cs d i) = i"
| "get_instance_uuid (SetParallelCurvesInstanceDelta cs d i) = i"
| "get_instance_uuid (SetTextInstanceDelta t d i) = i"

text \<open>\<^verbatim>\<open>apply_to_instance\<close> returns the instance as the call leaves it, and the exception
  it raised, if any.\<close>

fun apply_to_instance :: "InstanceDelta \<Rightarrow> Instance \<Rightarrow> Instance \<times> error option" where
  "apply_to_instance (AppendParallelCurvesInstanceDelta cs d i) inst =
     (inst\<lparr>parallel_curves := parallel_curves inst @ cs\<rparr>, None)"
| "apply_to_instance (SetParallelCurvesInstanceDelta cs d i) inst =
     (inst\<lparr>parallel_curves := cs\<rparr>, None)"
| "apply_to_instance (SetTextInstanceDelta t d i) inst =
     (case variant inst of
        TextInstance font_uuid old_text \<Rightarrow>
          (inst\<lparr>variant := TextInstance font_uuid t\<rparr>, None)
      | _ \<Rightarrow> (inst, Some NotImplementedError))"

section \<open>Rendered instances\<close>

text \<open>A Python \<^verbatim>\<open>set\<close> is a list of its elements in the order they were added; the
  order in which Python iterates a set is not specified, the model fixes this one.
  \<^verbatim>\<open>set.remove\<close> raises \<^verbatim>\<open>KeyError\<close> on an element that is not there.\<close>

definition set_add :: "'a \<Rightarrow> 'a list \<Rightarrow> 'a list" where
  "set_add x xs = (if x \<in> set xs then xs else xs @ [x])"

definition set_remove :: "'a \<Rightarrow> 'a list \<Rightarrow> error + 'a list" where
  "set_remove x xs = (if x \<in> set xs then Inr (removeAll x xs) else Inl KeyError)"

text \<open>\<open>instance_object\<close> is the address of the \<^verbatim>\<open>Instance\<close> object the rendered instance
  shares with the engine's registry, \<open>node_path\<close> the handle of its backend node and
  \<open>node_path_pos\<close> the position last passed to \<^verbatim>\<open>setPos\<close> on that node.
  \<open>is_active_curve_completed_event\<close> is the attribute \<^verbatim>\<open>update\<close> assigns; nothing in the
  source reads it.\<close>

record RenderedInstance =
  instance_object :: nat
  node_path :: nat
  node_path_pos :: vec3
  initial_position :: vec3
  position :: vec3
  initial_rotation :: vec3
  rotation :: vec3
  initial_scale :: real
  scale :: real
  initial_opacity :: real
  opacity :: real
  to_remove_parallel_curves :: "Curve list"
  completed_curve_uuids :: "string list"
  is_active_instance_removed_event :: bool
  is_active_curve_completed_event :: bool

definition new_RenderedInstance :: "nat \<Rightarrow> nat \<Rightarrow> RenderedInstance" where
  "new_RenderedInstance instance_ref node =
     \<lparr>instance_object = instance_ref, node_path = node, node_path_pos = (0, 0, 0),
      initial_position = (0, 0, 0), position = (0, 0, 0),
      initial_rotation = (0, 0, 0), rotation = (0, 0, 0),
      initial_scale = 0, scale = 0, initial_opacity = 0, opacity = 0,
      to_remove_parallel_curves = [], completed_curve_uuids = [],
      is_active_instance_removed_event = False,
      is_active_curve_completed_event = False\<rparr>"

definition pop_completed_curve_uuids :: "RenderedInstance \<Rightarrow> string list \<times> RenderedInstance" where
  "pop_completed_curve_uuids self =
     (if completed_curve_uuids self \<noteq> []
      then (completed_curve_uuids self, self\<lparr>completed_curve_uuids := []\<rparr>)
      else ([], self))"

definition pop_is_active_instance_removed_event :: "RenderedInstance \<Rightarrow> bool \<times> RenderedInstance" where
  "pop_is_active_instance_removed_event self =
     (if is_active_instance_removed_event self
      then (True, self\<lparr>is_active_instance_removed_event := False\<rparr>)
      else (False, self))"

text \<open>\<^verbatim>\<open>DateTimeDeltaCalculator.get_calculated_time_delta\<close> belongs to the package
  \<^verbatim>\<open>austin_heller_repo.common\<close>; the functions below take it as the parameter \<open>calc\<close>,
  applied to the start, the effective seconds, the current time and the raw time
  delta.\<close>

type_synonym calculator = "datetime \<Rightarrow> real \<Rightarrow> datetime \<Rightarrow> real \<Rightarrow> real"

text \<open>Modelled from the spec: \<^verbatim>\<open>get_calculated_time_delta\<close>, which is not in the
  sources: zero before the start, otherwise the seconds elapsed since the start,
  clamped to the effective seconds, so that it lands exactly on them once the window has
  elapsed. It is used only to run the model on concrete inputs.\<close>

definition get_calculated_time_delta :: calculator where
  "get_calculated_time_delta start effective_seconds now time_delta =
     (if now < start then 0
      else min (real_of_int (now - start) / 1000000) effective_seconds)"

text \<open>The body of the loop of \<^verbatim>\<open>RenderedInstance.update\<close> for one curve.\<close>

definition update_curve ::
  "calculator \<Rightarrow> real \<Rightarrow> datetime \<Rightarrow> Curve \<Rightarrow> RenderedInstance \<Rightarrow> error + RenderedInstance" where
  "update_curve calc time_delta utc_now parallel_curve self =
     (if start_datetime parallel_curve \<le> utc_now then
        if effective_time_seconds parallel_curve = 0 then
          Inr (self\<lparr>to_remove_parallel_curves :=
                 set_add parallel_curve (to_remove_parallel_curves self)\<rparr>)
        else
          let calculated_time_delta =
                calc (start_datetime parallel_curve) (effective_time_seconds parallel_curve)
                  utc_now time_delta
          in if calculated_time_delta > 0 then
               case try_update_position parallel_curve calculated_time_delta
                      (position self) (initial_position self) of
                 Inl e \<Rightarrow> Inl e
               | Inr (completed, p, ip) \<Rightarrow>
               case try_update_rotation parallel_curve calculated_time_delta
                      (rotation self) (initial_rotation self) of
                 Inl e \<Rightarrow> Inl e
               | Inr (_, r, ir) \<Rightarrow>
               case try_update_scale parallel_curve calculated_time_delta
                      (scale self) (initial_scale self) of
                 Inl e \<Rightarrow> Inl e
               | Inr (_, s, isc) \<Rightarrow>
               case try_update_opacity parallel_curve calculated_time_delta
                      (opacity self) (initial_opacity self) of
                 Inl e \<Rightarrow> Inl e
               | Inr (_, opa, iopa) \<Rightarrow>
                   Inr (self\<lparr>position := p, initial_position := ip,
                          rotation := r, initial_rotation := ir,
                          scale := s, initial_scale := isc,
                          opacity := opa, initial_opacity := iopa,
                          to_remove_parallel_curves :=
                            (if completed
                             then set_add parallel_curve (to_remove_parallel_curves self)
                             else to_remove_parallel_curves self)\<rparr>)
             else Inr self
      else Inr self)"

fun update_curves ::
  "calculator \<Rightarrow> real \<Rightarrow> datetime \<Rightarrow> Curve list \<Rightarrow> RenderedInstance \<Rightarrow> error + RenderedInstance" where
  "update_curves calc time_delta utc_now [] self = Inr self"
| "update_curves calc time_delta utc_now (parallel_curve # rest) self =
     (case update_curve calc time_delta utc_now parallel_curve self of
        Inl e \<Rightarrow> Inl e
      | Inr self' \<Rightarrow> update_curves calc time_delta utc_now rest self')"

text \<open>The second loop of \<^verbatim>\<open>update\<close>, over the curves marked for removal; it works on
  the instance object and on the rendered instance.\<close>

fun remove_curves ::
  "Curve list \<Rightarrow> Instance \<times> RenderedInstance \<Rightarrow> error + Instance \<times> RenderedInstance" where
  "remove_curves [] acc = Inr acc"
| "remove_curves (parallel_curve # rest) (inst, self) =
     (case remove_parallel_curve parallel_curve inst of
        Inl e \<Rightarrow> Inl e
      | Inr inst' \<Rightarrow>
          remove_curves rest
            (inst',
             self\<lparr>is_active_curve_completed_event :=
                    (is_controller_event_triggered_on_completed parallel_curve
                     \<or> is_active_curve_completed_event self),
                  is_active_instance_removed_event :=
                    (is_instance_removed_on_curve_completed parallel_curve
                     \<or> is_active_instance_removed_event self)\<rparr>))"

text \<open>\<^verbatim>\<open>RenderedInstance.update\<close>, on the instance object and the rendered instance.\<close>

definition update ::
  "calculator \<Rightarrow> real \<Rightarrow> datetime \<Rightarrow> Instance \<times> RenderedInstance \<Rightarrow>
     error + Instance \<times> RenderedInstance" where
  "update calc time_delta utc_now world =
     (case world of (inst, self) \<Rightarrow>
        case update_curves calc time_delta utc_now (parallel_curves inst)
               (self\<lparr>position := initial_position self\<rparr>) of
          Inl e \<Rightarrow> Inl e
        | Inr self1 \<Rightarrow>
            let self2 = self1\<lparr>node_path_pos := position self1\<rparr>
            in case remove_curves (to_remove_parallel_curves self2) (inst, self2) of
                 Inl e \<Rightarrow> Inl e
               | Inr (inst', self3) \<Rightarrow> Inr (inst', self3\<lparr>to_remove_parallel_curves := []\<rparr>))"

section \<open>The render engine\<close>

text \<open>
  \<^verbatim>\<open>Instance\<close> and \<^verbatim>\<open>RenderedInstance\<close> objects are mutable and shared: the registry
  and a rendered instance hold the same \<^verbatim>\<open>Instance\<close>, the registry, the buckets and
  the removal set hold the same \<^verbatim>\<open>RenderedInstance\<close>. The engine's state therefore has
  two stores, from addresses to objects, and every other field holds addresses.
  The dictionary \<^verbatim>\<open>__rendered_instance_per_instance_uuid\<close> is iterated, so it is an
  association list in insertion order. \<open>on_event_callable_per_event_type\<close> lists the
  event types that have a handler; what a handler does is outside the model, the task
  returns the events it would pass to it. \<open>models\<close>, \<open>fonts\<close> and \<open>images\<close> list the
  uuids of the registered resources. An address that has not been handed out holds an
  object nothing refers to.
\<close>

record RenderEngine =
  render_engine_uuid :: string
  is_client :: bool
  models :: "string list"
  fonts :: "string list"
  images :: "string list"
  on_event_callable_per_event_type :: "EventTypeEnum list"
  instance_per_instance_uuid :: "string \<rightharpoonup> nat"
  rendered_instance_per_instance_uuid :: "(string \<times> nat) list"
  rendered_instances_per_event_type :: "EventTypeEnum \<Rightarrow> nat list"
  to_remove_rendered_instance :: "nat list"
  instance_heap :: "nat \<Rightarrow> Instance"
  rendered_instance_heap :: "nat \<Rightarrow> RenderedInstance"
  next_rendered_instance :: nat
  next_node_path :: nat

text \<open>The state after \<^verbatim>\<open>__init__\<close>; \<open>objects\<close> is the store of the \<^verbatim>\<open>Instance\<close>
  objects of the caller. Node handle 0 is the scene root, 1 the camera.\<close>

definition new_RenderEngine ::
  "string \<Rightarrow> bool \<Rightarrow> string list \<Rightarrow> string list \<Rightarrow> string list \<Rightarrow> EventTypeEnum list \<Rightarrow>
     (nat \<Rightarrow> Instance) \<Rightarrow> RenderEngine" where
  "new_RenderEngine uuid client ms fs ims handlers objects =
     \<lparr>render_engine_uuid = uuid, is_client = client, models = ms, fonts = fs,
      images = ims, on_event_callable_per_event_type = handlers,
      instance_per_instance_uuid = Map.empty,
      rendered_instance_per_instance_uuid = [],
      rendered_instances_per_event_type = (\<lambda>event_type. []),
      to_remove_rendered_instance = [],
      instance_heap = objects,
      rendered_instance_heap = (\<lambda>r. new_RenderedInstance 0 0),
      next_rendered_instance = 0, next_node_path = 2\<rparr>"

text \<open>The event types under which an instance is indexed:
  \<^verbatim>\<open>get_client_event_types() if self.__is_client else get_renderer_event_types()\<close>.\<close>

definition visible_event_types :: "RenderEngine \<Rightarrow> Instance \<Rightarrow> EventTypeEnum list" where
  "visible_event_types self inst =
     (if is_client self then client_event_types inst else renderer_event_types inst)"

subsection \<open>\<^verbatim>\<open>apply_instance_deltas\<close>\<close>

text \<open>The result is the engine as the call leaves it and the exception that ended the
  loop, if any.\<close>

fun apply_instance_deltas :: "InstanceDelta list \<Rightarrow> RenderEngine \<Rightarrow> RenderEngine \<times> error option" where
  "apply_instance_deltas [] self = (self, None)"
| "apply_instance_deltas (instance_delta # rest) self =
     (case instance_per_instance_uuid self (get_instance_uuid instance_delta) of
        None \<Rightarrow> (self, Some KeyError)
      | Some ref \<Rightarrow>
          (case apply_to_instance instance_delta (instance_heap self ref) of
             (inst', Some e) \<Rightarrow>
               (self\<lparr>instance_heap := (instance_heap self)(ref := inst')\<rparr>, Some e)
           | (inst', None) \<Rightarrow>
               apply_instance_deltas rest
                 (self\<lparr>instance_heap := (instance_heap self)(ref := inst')\<rparr>)))"

subsection \<open>\<^verbatim>\<open>render_instances\<close>\<close>

text \<open>The node a new instance gets, or \<open>None\<close> for a camera that is not this client's;
  a model, font or image that is not registered raises.\<close>

definition make_node_path :: "Instance \<Rightarrow> RenderEngine \<Rightarrow> error + nat option \<times> RenderEngine" where
  "make_node_path inst self =
     (case variant inst of
        ModelInstance model_uuid \<Rightarrow>
          if model_uuid \<in> set (models self)
          then Inr (Some (next_node_path self), self\<lparr>next_node_path := Suc (next_node_path self)\<rparr>)
          else Inl Exception
      | TextInstance font_uuid txt \<Rightarrow>
          if font_uuid \<in> set (fonts self)
          then Inr (Some (next_node_path self), self\<lparr>next_node_path := Suc (next_node_path self)\<rparr>)
          else Inl Exception
      | ImageInstance image_uuid \<Rightarrow>
          if image_uuid \<in> set (images self)
          then Inr (Some (next_node_path self), self\<lparr>next_node_path := Suc (next_node_path self)\<rparr>)
          else Inl Exception
      | CameraInstance client_uuid \<Rightarrow>
          Inr (if is_client self \<and> render_engine_uuid self = client_uuid then Some 1 else None,
               self))"

fun add_to_event_types ::
  "nat \<Rightarrow> EventTypeEnum list \<Rightarrow> (EventTypeEnum \<Rightarrow> nat list) \<Rightarrow> (EventTypeEnum \<Rightarrow> nat list)" where
  "add_to_event_types r [] buckets = buckets"
| "add_to_event_types r (event_type # rest) buckets =
     add_to_event_types r rest (buckets(event_type := set_add r (buckets event_type)))"

definition render_instance :: "nat \<Rightarrow> RenderEngine \<Rightarrow> error + RenderEngine" where
  "render_instance ref self =
     (let inst = instance_heap self ref;
          uuid = instance_uuid inst;
          self1 = self\<lparr>instance_per_instance_uuid :=
                         (instance_per_instance_uuid self)(uuid \<mapsto> ref)\<rparr>
      in case (case parent_instance_uuid inst of
                 None \<Rightarrow> Inr 0
               | Some parent \<Rightarrow>
                   (case map_of (rendered_instance_per_instance_uuid self1) parent of
                      None \<Rightarrow> Inl KeyError
                    | Some pr \<Rightarrow> Inr (node_path (rendered_instance_heap self1 pr)))) of
           Inl e \<Rightarrow> Inl e
         | Inr parent_node_path \<Rightarrow>
             (case make_node_path inst self1 of
                Inl e \<Rightarrow> Inl e
              | Inr (None, self2) \<Rightarrow> Inr self2
              | Inr (Some node, self2) \<Rightarrow>
                  let r = next_rendered_instance self2
                  in Inr (self2\<lparr>rendered_instance_heap :=
                                  (rendered_instance_heap self2)(r := new_RenderedInstance ref node),
                                next_rendered_instance := Suc r,
                                rendered_instance_per_instance_uuid :=
                                  AList.update uuid r (rendered_instance_per_instance_uuid self2),
                                rendered_instances_per_event_type :=
                                  add_to_event_types r (visible_event_types self2 inst)
                                    (rendered_instances_per_event_type self2)\<rparr>)))"

fun render_instances :: "nat list \<Rightarrow> RenderEngine \<Rightarrow> error + RenderEngine" where
  "render_instances [] self = Inr self"
| "render_instances (ref # rest) self =
     (case render_instance ref self of
        Inl e \<Rightarrow> Inl e
      | Inr self' \<Rightarrow> render_instances rest self')"

subsection \<open>The update task\<close>

text \<open>The first loop of \<^verbatim>\<open>__render_instance_update_task\<close>, over the values of the
  registry of rendered instances; the second component collects
  \<^verbatim>\<open>completed_curve_uuids\<close>.\<close>

fun update_rendered_instances ::
  "calculator \<Rightarrow> real \<Rightarrow> datetime \<Rightarrow> nat list \<Rightarrow> RenderEngine \<times> string list \<Rightarrow>
     error + RenderEngine \<times> string list" where
  "update_rendered_instances calc time_delta utc_now [] acc = Inr acc"
| "update_rendered_instances calc time_delta utc_now (r # rest) (self, completed) =
     (let ri = rendered_instance_heap self r;
          ref = instance_object ri
      in case update calc time_delta utc_now (instance_heap self ref, ri) of
           Inl e \<Rightarrow> Inl e
         | Inr (inst', ri1) \<Rightarrow>
             (case pop_completed_curve_uuids ri1 of (popped, ri2) \<Rightarrow>
              case pop_is_active_instance_removed_event ri2 of (removed, ri3) \<Rightarrow>
                update_rendered_instances calc time_delta utc_now rest
                  (self\<lparr>instance_heap := (instance_heap self)(ref := inst'),
                        rendered_instance_heap := (rendered_instance_heap self)(r := ri3),
                        to_remove_rendered_instance :=
                          (if removed then set_add r (to_remove_rendered_instance self)
                           else to_remove_rendered_instance self)\<rparr>,
                   fold set_add popped completed)))"

text \<open>The removal of one flagged rendered instance: the two \<^verbatim>\<open>del\<close> statements, then
  \<^verbatim>\<open>remove\<close> on the bucket of each of its event types. Each of them can raise
  \<^verbatim>\<open>KeyError\<close>; the result is the state reached and the exception.\<close>

fun remove_from_event_types ::
  "nat \<Rightarrow> EventTypeEnum list \<Rightarrow> (EventTypeEnum \<Rightarrow> nat list) \<Rightarrow>
     (EventTypeEnum \<Rightarrow> nat list) \<times> error option" where
  "remove_from_event_types r [] buckets = (buckets, None)"
| "remove_from_event_types r (event_type # rest) buckets =
     (case set_remove r (buckets event_type) of
        Inl e \<Rightarrow> (buckets, Some e)
      | Inr bucket' \<Rightarrow> remove_from_event_types r rest (buckets(event_type := bucket')))"

definition remove_rendered_instance :: "nat \<Rightarrow> RenderEngine \<Rightarrow> RenderEngine \<times> error option" where
  "remove_rendered_instance r self =
     (let inst = instance_heap self (instance_object (rendered_instance_heap self r));
          uuid = instance_uuid inst
      in if map_of (rendered_instance_per_instance_uuid self) uuid = None
         then (self, Some KeyError)
         else
           let self1 = self\<lparr>rendered_instance_per_instance_uuid :=
                              AList.delete uuid (rendered_instance_per_instance_uuid self)\<rparr>
           in if instance_per_instance_uuid self1 uuid = None
              then (self1, Some KeyError)
              else
                let self2 = self1\<lparr>instance_per_instance_uuid :=
                                    (instance_per_instance_uuid self1)(uuid := None)\<rparr>
                in case remove_from_event_types r (visible_event_types self2 inst)
                          (rendered_instances_per_event_type self2) of
                     (buckets, err) \<Rightarrow>
                       (self2\<lparr>rendered_instances_per_event_type := buckets\<rparr>, err))"

fun remove_rendered_instances :: "nat list \<Rightarrow> RenderEngine \<Rightarrow> RenderEngine \<times> error option" where
  "remove_rendered_instances [] self = (self, None)"
| "remove_rendered_instances (r # rest) self =
     (case remove_rendered_instance r self of
        (self', Some e) \<Rightarrow> (self', Some e)
      | (self', None) \<Rightarrow> remove_rendered_instances rest self')"

text \<open>The removal-commit phase: \<^verbatim>\<open>if self.__to_remove_rendered_instance: ...\<close>.\<close>

definition commit_removals :: "RenderEngine \<Rightarrow> RenderEngine \<times> error option" where
  "commit_removals self =
     (if to_remove_rendered_instance self \<noteq> [] then
        case remove_rendered_instances (to_remove_rendered_instance self) self of
          (self', Some e) \<Rightarrow> (self', Some e)
        | (self', None) \<Rightarrow> (self'\<lparr>to_remove_rendered_instance := []\<rparr>, None)
      else (self, None))"

text \<open>A snapshot holds the instance and the position read from the node; rotation,
  scale and opacity are read from the backend node, which this module never writes, and
  are left out. The \<^verbatim>\<open>event_uuid\<close> is a fresh random uuid and is left out as well.\<close>

record RenderedInstanceState =
  state_instance :: Instance
  state_position :: vec3

record CurveCompletedEvent =
  event_curve_uuid :: string
  source_render_engine_uuid :: string
  rendered_instance_states :: "RenderedInstanceState list"
  triggered_datetime :: datetime

definition get_rendered_instance_state :: "RenderEngine \<Rightarrow> nat \<Rightarrow> RenderedInstanceState" where
  "get_rendered_instance_state self r =
     \<lparr>state_instance = instance_heap self (instance_object (rendered_instance_heap self r)),
      state_position = node_path_pos (rendered_instance_heap self r)\<rparr>"

definition get_rendered_instance_states_by_event_type ::
  "RenderEngine \<Rightarrow> EventTypeEnum \<Rightarrow> RenderedInstanceState list" where
  "get_rendered_instance_states_by_event_type self event_type =
     map (get_rendered_instance_state self) (rendered_instances_per_event_type self event_type)"

text \<open>\<^verbatim>\<open>__render_instance_update_task\<close>: one tick. \<open>task_time\<close> is \<^verbatim>\<open>task.time\<close> and
  \<open>utc_now\<close> the clock read at the start. The result is the engine after the tick and
  the events handed to the \<^verbatim>\<open>CurveCompleted\<close> handler, in order.\<close>

definition render_instance_update_task ::
  "calculator \<Rightarrow> real \<Rightarrow> datetime \<Rightarrow> RenderEngine \<Rightarrow> error + RenderEngine \<times> CurveCompletedEvent list" where
  "render_instance_update_task calc task_time utc_now self =
     (case update_rendered_instances calc (task_time + 1) utc_now
             (map snd (rendered_instance_per_instance_uuid self)) (self, []) of
        Inl e \<Rightarrow> Inl e
      | Inr (self1, completed) \<Rightarrow>
          (case commit_removals self1 of
             (self2, Some e) \<Rightarrow> Inl e
           | (self2, None) \<Rightarrow>
               Inr (self2,
                    if CurveCompleted \<in> set (on_event_callable_per_event_type self2) then
                      if completed \<noteq> [] then
                        map (\<lambda>completed_curve_uuid.
                               \<lparr>event_curve_uuid = completed_curve_uuid,
                                source_render_engine_uuid = render_engine_uuid self2,
                                rendered_instance_states =
                                  get_rendered_instance_states_by_event_type self2 CurveCompleted,
                                triggered_datetime = utc_now\<rparr>)
                            completed
                      else []
                    else [])))"

subsection \<open>Consistency of the registry and the buckets\<close>

text \<open>What \<^verbatim>\<open>render_instances\<close> establishes and the removal relies on: every entry of the
  registry of rendered instances is keyed by the uuid of its instance, and a rendered
  instance sits only in buckets of event types its instance is visible under.\<close>

definition all_event_types :: "EventTypeEnum list" where
  "all_event_types = [Collision, CurveCompleted, Key, MouseMoved]"

definition uuid_of :: "RenderEngine \<Rightarrow> nat \<Rightarrow> string" where
  "uuid_of self r =
     instance_uuid (instance_heap self (instance_object (rendered_instance_heap self r)))"

definition indexed_consistently :: "RenderEngine \<Rightarrow> bool" where
  "indexed_consistently self \<longleftrightarrow>
     list_all (\<lambda>(uuid, r). uuid_of self r = uuid) (rendered_instance_per_instance_uuid self)
     \<and> list_all
         (\<lambda>event_type.
            list_all
              (\<lambda>r. event_type \<in> set (visible_event_types self
                       (instance_heap self (instance_object (rendered_instance_heap self r)))))
              (rendered_instances_per_event_type self event_type))
         all_event_types"

text \<open>Every address of a rendered instance in the registry or in a bucket has been
  handed out by \<^verbatim>\<open>render_instances\<close>.\<close>

definition rendered_instances_allocated :: "RenderEngine \<Rightarrow> bool" where
  "rendered_instances_allocated self \<longleftrightarrow>
     list_all (\<lambda>(uuid, r). r < next_rendered_instance self)
       (rendered_instance_per_instance_uuid self)
     \<and> list_all
         (\<lambda>event_type.
            list_all (\<lambda>r. r < next_rendered_instance self)
              (rendered_instances_per_event_type self event_type))
         all_event_types"

section \<open>Serialized instance deltas\<close>

text \<open>The values \<^verbatim>\<open>to_json\<close> builds and \<^verbatim>\<open>parse_json\<close> reads: Python objects made of
  strings, numbers, booleans, \<^verbatim>\<open>None\<close>, lists and dictionaries with string keys.\<close>

datatype json =
  JStr string | JNum real | JBool bool | JNone | JList "json list" | JDict "(string \<times> json) list"

datatype InstanceDeltaTypeEnum = AppendParallelCurves | SetParallelCurves | SetText

fun InstanceDeltaTypeEnum_value :: "InstanceDeltaTypeEnum \<Rightarrow> string" where
  "InstanceDeltaTypeEnum_value AppendParallelCurves = ''append_parallel_curves''"
| "InstanceDeltaTypeEnum_value SetParallelCurves = ''set_parallel_curves''"
| "InstanceDeltaTypeEnum_value SetText = ''set_text''"

text \<open>\<^verbatim>\<open>InstanceDeltaTypeEnum(x)\<close>: the member with the value \<open>x\<close>, \<^verbatim>\<open>ValueError\<close> when
  there is none.\<close>

definition InstanceDeltaTypeEnum_of :: "json \<Rightarrow> error + InstanceDeltaTypeEnum" where
  "InstanceDeltaTypeEnum_of x =
     (if x = JStr ''append_parallel_curves'' then Inr AppendParallelCurves
      else if x = JStr ''set_parallel_curves'' then Inr SetParallelCurves
      else if x = JStr ''set_text'' then Inr SetText
      else Inl ValueError)"

fun get_instance_delta_type :: "InstanceDelta \<Rightarrow> InstanceDeltaTypeEnum" where
  "get_instance_delta_type (AppendParallelCurvesInstanceDelta cs d i) = AppendParallelCurves"
| "get_instance_delta_type (SetParallelCurvesInstanceDelta cs d i) = SetParallelCurves"
| "get_instance_delta_type (SetTextInstanceDelta t d i) = SetText"

text \<open>\<^verbatim>\<open>InstanceDelta.to_json\<close>. None of the three subclasses overrides it, so this is the
  dictionary every delta serializes to.\<close>

definition InstanceDelta_to_json :: "InstanceDelta \<Rightarrow> (string \<times> json) list" where
  "InstanceDelta_to_json self =
     [(''instance_delta_uuid'', JStr (get_instance_delta_uuid self)),
      (''instance_delta_type'', JStr (InstanceDeltaTypeEnum_value (get_instance_delta_type self))),
      (''instance_uuid'', JStr (get_instance_uuid self))]"

text \<open>\<^verbatim>\<open>InstanceDelta.parse_json\<close>. It dispatches on the tag to \<^verbatim>\<open>parse_json\<close> of the
  subclass; no subclass defines one, so each of the three calls resolves to the inherited
  static method, this same function on the same dictionary. The first argument is the
  number of frames the interpreter still allows; when none is left Python raises
  \<^verbatim>\<open>RecursionError\<close>.\<close>

fun InstanceDelta_parse_json :: "nat \<Rightarrow> (string \<times> json) list \<Rightarrow> error + InstanceDelta" where
  "InstanceDelta_parse_json 0 json_dict = Inl RecursionError"
| "InstanceDelta_parse_json (Suc frames) json_dict =
     (case map_of json_dict ''instance_delta_type'' of
        None \<Rightarrow> Inl KeyError
      | Some x \<Rightarrow>
          (case InstanceDeltaTypeEnum_of x of
             Inl e \<Rightarrow> Inl e
           | Inr AppendParallelCurves \<Rightarrow> InstanceDelta_parse_json frames json_dict
           | Inr SetParallelCurves \<Rightarrow> InstanceDelta_parse_json frames json_dict
           | Inr SetText \<Rightarrow> InstanceDelta_parse_json frames json_dict))"

section \<open>Concrete inputs\<close>


definition curve_two_terms :: Curve where
  "curve_two_terms =
     \<lparr>curve_object = 1, curve_uuid = ''two'',
      position_deltas = [(0, 1, 0), (0, 1 / 10, 0)], rotation_deltas = [(1, 0, 0)],
      scale_deltas = [2, 4], opacity_deltas = [1], effective_time_seconds = 3,
      is_controller_event_triggered_on_completed = True, start_datetime = 0,
      is_instance_removed_on_curve_completed = False, restart_after_seconds = None\<rparr>"

definition curve_no_terms :: Curve where
  "curve_no_terms =
     \<lparr>curve_object = 2, curve_uuid = ''none'',
      position_deltas = [], rotation_deltas = [],
      scale_deltas = [], opacity_deltas = [], effective_time_seconds = 3,
      is_controller_event_triggered_on_completed = False, start_datetime = 0,
      is_instance_removed_on_curve_completed = False, restart_after_seconds = None\<rparr>"

definition text_instance :: Instance where
  "text_instance =
     \<lparr>instance_uuid = ''label'', variant = TextInstance ''font'' ''old'',
      parallel_curves = [curve_two_terms], client_event_types = [MouseMoved],
      renderer_event_types = [], owner_render_engine_uuid = ''engine'',
      parent_instance_uuid = None\<rparr>"

definition model_instance :: Instance where
  "model_instance =
     \<lparr>instance_uuid = ''king'', variant = ModelInstance ''model'',
      parallel_curves = [curve_two_terms], client_event_types = [],
      renderer_event_types = [CurveCompleted], owner_render_engine_uuid = ''engine'',
      parent_instance_uuid = None\<rparr>"

text \<open>A store with the model instance at address 0 and the text instance everywhere
  else, an engine on the authority side with a \<^verbatim>\<open>CurveCompleted\<close> handler, and the state
  of that engine after \<^verbatim>\<open>render_instances\<close> on the object at address 0.\<close>

definition example_objects :: "nat \<Rightarrow> Instance" where
  "example_objects ref = (if ref = 0 then model_instance else text_instance)"

definition example_engine :: RenderEngine where
  "example_engine =
     new_RenderEngine ''engine'' False [''model''] [''font''] [] [CurveCompleted] example_objects"

definition engine_king :: RenderEngine where
  "engine_king =
     example_engine
       \<lparr>instance_per_instance_uuid := [''king'' \<mapsto> 0],
        rendered_instance_per_instance_uuid := [(''king'', 0)],
        rendered_instances_per_event_type := (\<lambda>event_type. [])(CurveCompleted := [0]),
        rendered_instance_heap := (\<lambda>r. new_RenderedInstance 0 0)(0 := new_RenderedInstance 0 2),
        next_rendered_instance := 1, next_node_path := 3\<rparr>"

text \<open>Curves that expire at once, without and with the request to remove the
  instance, and instances that hold them.\<close>

definition curve_zero :: Curve where
  "curve_zero =
     \<lparr>curve_object = 3, curve_uuid = ''zero'',
      position_deltas = [(1, 1, 1)], rotation_deltas = [],
      scale_deltas = [], opacity_deltas = [], effective_time_seconds = 0,
      is_controller_event_triggered_on_completed = True, start_datetime = 0,
      is_instance_removed_on_curve_completed = False, restart_after_seconds = None\<rparr>"

definition curve_zero_remove :: Curve where
  "curve_zero_remove = curve_zero\<lparr>curve_object := 4, curve_uuid := ''zero and remove'',
     is_instance_removed_on_curve_completed := True\<rparr>"


definition zero_remove_instance :: Instance where
  "zero_remove_instance = model_instance\<lparr>parallel_curves := [curve_zero_remove]\<rparr>"

text \<open>The engine of \<open>engine_king\<close> with, at every address, an instance whose only
  curve expires at once and asks for the removal of the instance; and the same with an
  instance that lists \<^verbatim>\<open>CurveCompleted\<close> twice among its event types, in the state
  \<^verbatim>\<open>render_instances\<close> produces for it.\<close>

definition engine_expiring :: RenderEngine where
  "engine_expiring = engine_king\<lparr>instance_heap := (\<lambda>ref. zero_remove_instance)\<rparr>"

definition duplicate_instance :: Instance where
  "duplicate_instance =
     zero_remove_instance\<lparr>renderer_event_types := [CurveCompleted, CurveCompleted, MouseMoved]\<rparr>"

definition engine_twice :: RenderEngine where
  "engine_twice =
     engine_king
       \<lparr>instance_heap := (\<lambda>ref. duplicate_instance),
        rendered_instances_per_event_type :=
          (\<lambda>event_type. [])(CurveCompleted := [0], MouseMoved := [0])\<rparr>"





section \<open>Facts about the evaluator\<close>

lemma get_cached_factorial_fact:
  assumes "index < 12"
  shows "get_cached_factorial index = Inr (fact index)"
proof -
  from assms have "index = 0 \<or> index = 1 \<or> index = 2 \<or> index = 3 \<or> index = 4
      \<or> index = 5 \<or> index = 6 \<or> index = 7 \<or> index = 8 \<or> index = 9 \<or> index = 10
      \<or> index = 11"
    by presburger
  then show ?thesis
    by (auto simp: get_cached_factorial_def cached_factorials_def fact_numeral)
qed

lemma get_cached_factorial_out_of_range:
  "12 \<le> index \<Longrightarrow> get_cached_factorial index = Inl IndexError"
  by (simp add: get_cached_factorial_def cached_factorials_def)

lemma try_update_float_reference_loop_sum:
  "index + length ds \<le> 12 \<Longrightarrow>
   try_update_float_reference_loop t b index p ds (r, dr) =
     Inr (r + (\<Sum>k<length ds. ds ! k * (p * t ^ k) / fact (index + k)),
          if b then dr + (\<Sum>k<length ds. ds ! k * (p * t ^ k) / fact (index + k)) else dr)"
proof (induction ds arbitrary: index p r dr)
  case Nil
  then show ?case by simp
next
  case (Cons d ds)
  then have i: "index < 12" and rest: "Suc index + length ds \<le> 12" by simp_all
  show ?case
    using Cons.IH [OF rest]
    by (simp add: get_cached_factorial_fact [OF i] sum.lessThan_Suc_shift
        Let_def algebra_simps del: fact_Suc sum.lessThan_Suc)
qed

lemma try_update_vector_loop_sum:
  "index + length ds \<le> 12 \<Longrightarrow>
   try_update_vector_loop t b index p ds (v, dv) =
     Inr (vec_add v
            ((\<Sum>k<length ds. fst (ds ! k) * (p * t ^ k) / fact (index + k)),
             (\<Sum>k<length ds. fst (snd (ds ! k)) * (p * t ^ k) / fact (index + k)),
             (\<Sum>k<length ds. snd (snd (ds ! k)) * (p * t ^ k) / fact (index + k))),
          if b then vec_add dv
            ((\<Sum>k<length ds. fst (ds ! k) * (p * t ^ k) / fact (index + k)),
             (\<Sum>k<length ds. fst (snd (ds ! k)) * (p * t ^ k) / fact (index + k)),
             (\<Sum>k<length ds. snd (snd (ds ! k)) * (p * t ^ k) / fact (index + k)))
          else dv)"
proof (induction ds arbitrary: index p v dv)
  case Nil
  then show ?case by (cases v; cases dv) (simp add: vec_add_def)
next
  case (Cons d ds)
  then have i: "index < 12" and rest: "Suc index + length ds \<le> 12" by simp_all
  obtain dx dy dz where d: "d = (dx, dy, dz)" by (cases d)
  obtain vx vy vz where v: "v = (vx, vy, vz)" by (cases v)
  obtain wx wy wz where dv: "dv = (wx, wy, wz)" by (cases dv)
  show ?case
    unfolding d v dv
    by (simp add: Cons.IH [OF rest] get_cached_factorial_fact [OF i] sum.lessThan_Suc_shift
        Let_def vec_add_def algebra_simps del: fact_Suc sum.lessThan_Suc)
qed

lemma try_update_float_reference_loop_raises:
  "index \<le> 12 \<Longrightarrow> 12 < index + length ds \<Longrightarrow>
   try_update_float_reference_loop t b index p ds acc = Inl IndexError"
proof (induction ds arbitrary: index p acc)
  case Nil
  then show ?case by simp
next
  case (Cons d ds)
  obtain r dr where acc: "acc = (r, dr)" by (cases acc)
  show ?case
  proof (cases "index < 12")
    case True
    with Cons.prems have "Suc index \<le> 12" "12 < Suc index + length ds" by simp_all
    from Cons.IH [OF this] show ?thesis
      by (simp add: acc get_cached_factorial_fact [OF True] Let_def del: fact_Suc)
  next
    case False
    then show ?thesis
      by (simp add: acc get_cached_factorial_out_of_range)
  qed
qed


lemma try_update_float_reference_eq:
  "length ds \<le> 12 \<Longrightarrow>
   try_update_float_reference c t r dr ds =
     Inr (t = effective_time_seconds c, r + closed_form ds t,
          if t = effective_time_seconds c then dr + closed_form ds t else dr)"
  using try_update_float_reference_loop_sum [of 0 ds t "t = effective_time_seconds c" 1 r dr]
  by (simp add: try_update_float_reference_def closed_form_def)

lemma try_update_vector_eq:
  "length ds \<le> 12 \<Longrightarrow>
   try_update_vector c t v dv ds =
     Inr (t = effective_time_seconds c, vec_add v (closed_form_vec ds t),
          if t = effective_time_seconds c then vec_add dv (closed_form_vec ds t) else dv)"
  using try_update_vector_loop_sum [of 0 ds t "t = effective_time_seconds c" 1 v dv]
  by (simp add: try_update_vector_def closed_form_def closed_form_vec_def)

lemma try_update_float_reference_raises:
  "12 < length ds \<Longrightarrow> try_update_float_reference c t r dr ds = Inl IndexError"
  by (simp add: try_update_float_reference_def try_update_float_reference_loop_raises)


section \<open>The closed form of an evaluation\<close>

text \<open>
  With the arithmetic of the real numbers, an evaluation of a channel of \<open>n \<le> 12\<close> delta
  terms at the elapsed time \<open>t\<close> leaves in the running accumulator its old value plus the
  sum over \<open>k < n\<close> of \<open>delta[k] * t^k / k!\<close>, componentwise for position and rotation.
  Python computes each product, quotient and sum in double precision and rounds it, so
  for the values the source computes this is the equation of the idealised arithmetic
  only, not an equation between floats.
\<close>

lemma exact_arithmetic_closed_form:
  "(length (position_deltas c) \<le> 12 \<longrightarrow>
      (\<exists>b d. try_update_position c t p dp =
         Inr (b, vec_add p (closed_form_vec (position_deltas c) t), d)))
   \<and> (length (rotation_deltas c) \<le> 12 \<longrightarrow>
      (\<exists>b d. try_update_rotation c t r dr =
         Inr (b, vec_add r (closed_form_vec (rotation_deltas c) t), d)))
   \<and> (length (scale_deltas c) \<le> 12 \<longrightarrow>
      (\<exists>b d. try_update_scale c t s ds =
         Inr (b, s + closed_form (scale_deltas c) t, d)))
   \<and> (length (opacity_deltas c) \<le> 12 \<longrightarrow>
      (\<exists>b d. try_update_opacity c t opa dopa =
         Inr (b, opa + closed_form (opacity_deltas c) t, d)))"
  by (simp add: try_update_position_def try_update_rotation_def try_update_scale_def
      try_update_opacity_def try_update_vector_eq try_update_float_reference_eq
      del: split_paired_Ex)

section \<open>Completion\<close>







section \<open>Applying a delta to an instance\<close>

text \<open>
  Claim C7. \<^verbatim>\<open>SetTextInstanceDelta.apply_to_instance\<close> on an instance that is not a
  \<^verbatim>\<open>TextInstance\<close> raises (\<^verbatim>\<open>NotImplementedError\<close>) and leaves the instance as it was;
  on a \<^verbatim>\<open>TextInstance\<close> it raises nothing and the instance differs from the old one
  in its text only, which is the text of the delta.
\<close>

theorem set_text_requires_text_instance:
  "((\<forall>font_uuid old_text. variant inst \<noteq> TextInstance font_uuid old_text) \<longrightarrow>
      apply_to_instance (SetTextInstanceDelta new_text d i) inst
        = (inst, Some NotImplementedError))
   \<and> (variant inst = TextInstance font_uuid old_text \<longrightarrow>
      apply_to_instance (SetTextInstanceDelta new_text d i) inst
        = (inst\<lparr>variant := TextInstance font_uuid new_text\<rparr>, None))"
  by (cases "variant inst") simp_all

theorem set_text_requires_text_instance_witness:
  "(\<forall>font_uuid old_text. variant model_instance \<noteq> TextInstance font_uuid old_text)
   \<and> apply_to_instance (SetTextInstanceDelta ''new'' ''d'' ''king'') model_instance
       = (model_instance, Some NotImplementedError)
   \<and> variant text_instance = TextInstance ''font'' ''old''
   \<and> apply_to_instance (SetTextInstanceDelta ''new'' ''d'' ''label'') text_instance
       = (text_instance\<lparr>variant := TextInstance ''font'' ''new''\<rparr>, None)"
  using set_text_requires_text_instance [where inst = model_instance
      and new_text = "''new''" and d = "''d''" and i = "''king''"]
    set_text_requires_text_instance [where inst = text_instance and font_uuid = "''font''"
      and old_text = "''old''" and new_text = "''new''" and d = "''d''" and i = "''label''"]
  by (simp add: model_instance_def text_instance_def)

section \<open>Applying a batch of deltas\<close>

lemma engine_king_reachable: "render_instances [0] example_engine = Inr engine_king"
  by (simp add: engine_king_def example_engine_def new_RenderEngine_def render_instance_def
      example_objects_def model_instance_def make_node_path_def Let_def visible_event_types_def
      set_add_def)

lemma apply_instance_deltas_registry:
  "apply_instance_deltas ds self = (self', err) \<Longrightarrow>
   instance_per_instance_uuid self' = instance_per_instance_uuid self"
proof (induction ds arbitrary: self)
  case Nil
  then show ?case by simp
next
  case (Cons d ds)
  then show ?case
    by (auto split: option.splits prod.splits)
qed

text \<open>
  Claim C6, as stated: every batch that contains a delta with an unknown target fails
  with a \<^verbatim>\<open>LookupError\<close> at that delta. It fails when an earlier delta of the batch
  raises first: a \<^verbatim>\<open>SetText\<close> delta aimed at the registered model instance ends the batch
  with \<^verbatim>\<open>NotImplementedError\<close>, and the delta with the unknown target is never reached.
\<close>

theorem earlier_failure_counterexample:
  "instance_per_instance_uuid engine_king ''ghost'' = None
   \<and> snd (apply_instance_deltas
        [SetTextInstanceDelta ''hello'' ''d1'' ''king'',
         AppendParallelCurvesInstanceDelta [] ''d2'' ''ghost''] engine_king)
      = Some NotImplementedError"
  by (simp add: engine_king_def example_engine_def new_RenderEngine_def example_objects_def
      model_instance_def)

text \<open>
  Claim C6, amended. Let a batch contain a delta whose target uuid is not a key of the
  instance registry. If the deltas before it all apply without raising, the call raises
  \<^verbatim>\<open>KeyError\<close> (a \<^verbatim>\<open>LookupError\<close>) at that delta, in the state those deltas have
  produced: they stay applied, and the deltas after it are not processed, whatever they
  are. If a delta before it raises, the call ends there with that exception.
\<close>

theorem unknown_target_stops_batch:
  "instance_per_instance_uuid self (get_instance_uuid d) = None \<longrightarrow>
   apply_instance_deltas (before @ d # after) self =
     (case apply_instance_deltas before self of
        (self1, None) \<Rightarrow> (self1, Some KeyError)
      | (self1, Some e) \<Rightarrow> (self1, Some e))"
proof (induction before arbitrary: self)
  case Nil
  show ?case by simp
next
  case (Cons b before)
  show ?case
  proof
    assume missing: "instance_per_instance_uuid self (get_instance_uuid d) = None"
    show "apply_instance_deltas ((b # before) @ d # after) self =
      (case apply_instance_deltas (b # before) self of
         (self1, None) \<Rightarrow> (self1, Some KeyError)
       | (self1, Some e) \<Rightarrow> (self1, Some e))"
    proof (cases "instance_per_instance_uuid self (get_instance_uuid b)")
      case None
      then show ?thesis by simp
    next
      case (Some ref)
      obtain inst' err where step: "apply_to_instance b (instance_heap self ref) = (inst', err)"
        by (cases "apply_to_instance b (instance_heap self ref)")
      show ?thesis
      proof (cases err)
        case None
        have "instance_per_instance_uuid
                (self\<lparr>instance_heap := (instance_heap self)(ref := inst')\<rparr>)
                (get_instance_uuid d) = None"
          using missing by simp
        with Cons.IH [of "self\<lparr>instance_heap := (instance_heap self)(ref := inst')\<rparr>"]
        show ?thesis
          using Some step None by simp
      next
        case (Some e)
        then show ?thesis
          using \<open>instance_per_instance_uuid self (get_instance_uuid b) = Some ref\<close> step
          by simp
      qed
    qed
  qed
qed

theorem unknown_target_stops_batch_witness:
  "instance_per_instance_uuid engine_king ''ghost'' = None
   \<and> apply_instance_deltas
        [AppendParallelCurvesInstanceDelta [curve_no_terms] ''d1'' ''king'',
         SetTextInstanceDelta ''hello'' ''d2'' ''ghost'',
         SetParallelCurvesInstanceDelta [] ''d3'' ''king''] engine_king
      = (engine_king\<lparr>instance_heap := (instance_heap engine_king)
           (0 := model_instance\<lparr>parallel_curves := [curve_two_terms, curve_no_terms]\<rparr>)\<rparr>,
         Some KeyError)"
  using unknown_target_stops_batch [where self = engine_king
      and d = "SetTextInstanceDelta ''hello'' ''d2'' ''ghost''"
      and before = "[AppendParallelCurvesInstanceDelta [curve_no_terms] ''d1'' ''king'']"
      and after = "[SetParallelCurvesInstanceDelta [] ''d3'' ''king'']"]
  by (simp add: engine_king_def example_engine_def new_RenderEngine_def example_objects_def
      model_instance_def)

section \<open>One update of a rendered instance\<close>


lemma set_add_set: "set (set_add x xs) = insert x (set xs)"
  by (auto simp: set_add_def)

lemma update_curve_marks:
  assumes "update_curve calc td utc_now c s = Inr s'"
  shows "set (to_remove_parallel_curves s) \<subseteq> set (to_remove_parallel_curves s')"
    and "set (to_remove_parallel_curves s') \<subseteq> insert c (set (to_remove_parallel_curves s))"
    and "is_active_instance_removed_event s' = is_active_instance_removed_event s"
    and "completed_curve_uuids s' = completed_curve_uuids s"
    and "instance_object s' = instance_object s"
  using assms
  by (auto simp: update_curve_def Let_def set_add_set split: if_splits sum.splits)

lemma update_curves_marks:
  assumes "update_curves calc td utc_now cs s = Inr s'"
  shows "set (to_remove_parallel_curves s) \<subseteq> set (to_remove_parallel_curves s')"
    and "set (to_remove_parallel_curves s') \<subseteq> set cs \<union> set (to_remove_parallel_curves s)"
    and "is_active_instance_removed_event s' = is_active_instance_removed_event s"
    and "completed_curve_uuids s' = completed_curve_uuids s"
    and "instance_object s' = instance_object s"
  using assms
proof (induction cs arbitrary: s)
  case Nil
  {
    case 1 then show ?case by simp
  next
    case 2 then show ?case by simp
  next
    case 3 then show ?case by simp
  next
    case 4 then show ?case by simp
  next
    case 5 then show ?case by simp
  }
next
  case (Cons c cs)
  {
    case 1
    then obtain s1 where a: "update_curve calc td utc_now c s = Inr s1"
      and b: "update_curves calc td utc_now cs s1 = Inr s'"
      by (auto split: sum.splits)
    show ?case using update_curve_marks(1) [OF a] Cons.IH(1) [OF b] by blast
  next
    case 2
    then obtain s1 where a: "update_curve calc td utc_now c s = Inr s1"
      and b: "update_curves calc td utc_now cs s1 = Inr s'"
      by (auto split: sum.splits)
    show ?case using update_curve_marks(2) [OF a] Cons.IH(2) [OF b] by auto
  next
    case 3
    then obtain s1 where a: "update_curve calc td utc_now c s = Inr s1"
      and b: "update_curves calc td utc_now cs s1 = Inr s'"
      by (auto split: sum.splits)
    show ?case using update_curve_marks(3) [OF a] Cons.IH(3) [OF b] by simp
  next
    case 4
    then obtain s1 where a: "update_curve calc td utc_now c s = Inr s1"
      and b: "update_curves calc td utc_now cs s1 = Inr s'"
      by (auto split: sum.splits)
    show ?case using update_curve_marks(4) [OF a] Cons.IH(4) [OF b] by simp
  next
    case 5
    then obtain s1 where a: "update_curve calc td utc_now c s = Inr s1"
      and b: "update_curves calc td utc_now cs s1 = Inr s'"
      by (auto split: sum.splits)
    show ?case using update_curve_marks(5) [OF a] Cons.IH(5) [OF b] by simp
  }
qed


lemma count_list_remove1:
  "count_list (remove1 x ys) c = count_list ys c - (if x = c \<and> c \<in> set ys then 1 else 0)"
  by (induction ys) auto

lemma remove_curves_effect:
  "remove_curves xs (inst, s) = Inr (inst', s') \<Longrightarrow>
   count_list (parallel_curves inst') c \<le> count_list (parallel_curves inst) c
   \<and> (c \<in> set xs \<longrightarrow> count_list (parallel_curves inst') c < count_list (parallel_curves inst) c)
   \<and> is_active_instance_removed_event s' =
       (is_active_instance_removed_event s \<or> (\<exists>x \<in> set xs. is_instance_removed_on_curve_completed x))
   \<and> completed_curve_uuids s' = completed_curve_uuids s
   \<and> instance_object s' = instance_object s
   \<and> initial_position s' = initial_position s \<and> position s' = position s
   \<and> initial_rotation s' = initial_rotation s \<and> rotation s' = rotation s
   \<and> initial_scale s' = initial_scale s \<and> scale s' = scale s
   \<and> initial_opacity s' = initial_opacity s \<and> opacity s' = opacity s"
proof (induction xs arbitrary: inst s)
  case Nil
  then show ?case by simp
next
  case (Cons x xs)
  from Cons.prems obtain inst1 where
    a: "remove_parallel_curve x inst = Inr inst1" and
    b: "remove_curves xs
          (inst1,
           s\<lparr>is_active_curve_completed_event :=
                (is_controller_event_triggered_on_completed x \<or> is_active_curve_completed_event s),
              is_active_instance_removed_event :=
                (is_instance_removed_on_curve_completed x \<or> is_active_instance_removed_event s)\<rparr>)
        = Inr (inst', s')"
    by (auto split: sum.splits)
  from a have mem: "x \<in> set (parallel_curves inst)"
    and inst1: "parallel_curves inst1 = remove1 x (parallel_curves inst)"
    by (auto simp: remove_parallel_curve_def split: if_splits)
  have pos: "x = c \<Longrightarrow> 0 < count_list (parallel_curves inst) c"
    using mem count_list_0_iff [of "parallel_curves inst" c] by auto
  from Cons.IH [OF b] show ?case
    using pos by (auto simp: inst1 count_list_remove1 split: if_splits)
qed


lemma update_Inr:
  assumes "update calc td utc_now (inst, s) = Inr (inst', s')"
  shows "\<exists>s1 s3.
    update_curves calc td utc_now (parallel_curves inst) (s\<lparr>position := initial_position s\<rparr>)
      = Inr s1
    \<and> remove_curves (to_remove_parallel_curves s1) (inst, s1\<lparr>node_path_pos := position s1\<rparr>)
      = Inr (inst', s3)
    \<and> s' = s3\<lparr>to_remove_parallel_curves := []\<rparr>"
  using assms by (auto simp: update_def Let_def split: sum.splits)

text \<open>The scratch position a call of \<^verbatim>\<open>update\<close> finds does not matter to it: the call
  starts from the base position.\<close>

lemma update_ignores_scratch_position:
  "update calc td utc_now (inst, s\<lparr>position := p\<rparr>) = update calc td utc_now (inst, s)"
  by (simp add: update_def)

text \<open>
  Claim C4 says that every call of \<^verbatim>\<open>update\<close> recomputes each of the four scratch
  accumulators from its base value. The source resets \<^verbatim>\<open>__position\<close> from
  \<^verbatim>\<open>__initial_position\<close> and nothing else, so rotation, scale and opacity keep what
  earlier calls left in them. Two calls on the model instance, one and two seconds after
  the start of its curve: the second call contributes \<open>(1, 0, 0)\<close> to the rotation, 10 to
  the scale and 1 to the opacity, all three base values are still zero, and the scratch
  values are \<open>(2, 0, 0)\<close>, 16 and 2; only the position is its base plus the contribution.
\<close>

theorem rotation_scale_opacity_carry_over:
  "closed_form_vec (position_deltas curve_two_terms) 2 = (0, 6 / 5, 0)
   \<and> closed_form_vec (rotation_deltas curve_two_terms) 2 = (1, 0, 0)
   \<and> closed_form (scale_deltas curve_two_terms) 2 = 10
   \<and> closed_form (opacity_deltas curve_two_terms) 2 = 1
   \<and> (case update get_calculated_time_delta 1 1000000
              (model_instance, new_RenderedInstance 0 2) of
         Inl e \<Rightarrow> False
       | Inr (inst1, self1) \<Rightarrow>
           initial_rotation self1 = (0, 0, 0) \<and> rotation self1 = (1, 0, 0)
           \<and> (case update get_calculated_time_delta 1 2000000 (inst1, self1) of
                 Inl e \<Rightarrow> False
               | Inr (inst2, self2) \<Rightarrow>
                   parallel_curves inst2 = [curve_two_terms]
                   \<and> initial_position self2 = (0, 0, 0) \<and> position self2 = (0, 6 / 5, 0)
                   \<and> initial_rotation self2 = (0, 0, 0) \<and> rotation self2 = (2, 0, 0)
                   \<and> initial_scale self2 = 0 \<and> scale self2 = 16
                   \<and> initial_opacity self2 = 0 \<and> opacity self2 = 2))"
  by (simp add: update_def update_curve_def model_instance_def curve_two_terms_def
      new_RenderedInstance_def get_calculated_time_delta_def try_update_position_def
      try_update_rotation_def try_update_scale_def try_update_opacity_def
      try_update_vector_def try_update_float_reference_def get_cached_factorial_def
      cached_factorials_def vec_add_def closed_form_vec_def closed_form_def lessThan_Suc
      Let_def)













section \<open>One tick of the update task\<close>

lemma update_keeps_completed_curve_uuids:
  assumes "update calc td utc_now (inst, s) = Inr (inst', s')"
  shows "completed_curve_uuids s' = completed_curve_uuids s"
proof -
  from update_Inr [OF assms] obtain s1 s3 where
    loop: "update_curves calc td utc_now (parallel_curves inst)
             (s\<lparr>position := initial_position s\<rparr>) = Inr s1"
    and rem: "remove_curves (to_remove_parallel_curves s1)
                (inst, s1\<lparr>node_path_pos := position s1\<rparr>) = Inr (inst', s3)"
    and fin: "s' = s3\<lparr>to_remove_parallel_curves := []\<rparr>"
    by blast
  show ?thesis
    using update_curves_marks(4) [OF loop] remove_curves_effect [OF rem] fin by simp
qed

lemma update_rendered_instances_collects_nothing:
  "update_rendered_instances calc td utc_now rs (self, completed) = Inr (self', completed') \<Longrightarrow>
   \<forall>r. completed_curve_uuids (rendered_instance_heap self r) = [] \<Longrightarrow>
   completed' = completed \<and> (\<forall>r. completed_curve_uuids (rendered_instance_heap self' r) = [])"
proof (induction rs arbitrary: self completed)
  case Nil
  then show ?case by simp
next
  case (Cons r rs)
  let ?ri = "rendered_instance_heap self r"
  let ?ref = "instance_object ?ri"
  from Cons.prems(1) obtain inst' ri1 where
    up: "update calc td utc_now (instance_heap self ?ref, ?ri) = Inr (inst', ri1)"
    by (auto simp: Let_def split: sum.splits)
  have c1: "completed_curve_uuids ri1 = []"
    using update_keeps_completed_curve_uuids [OF up] Cons.prems(2) by simp
  then have pop: "pop_completed_curve_uuids ri1 = ([], ri1)"
    by (simp add: pop_completed_curve_uuids_def)
  obtain removed ri3 where pr: "pop_is_active_instance_removed_event ri1 = (removed, ri3)"
    by (cases "pop_is_active_instance_removed_event ri1")
  then have c3: "completed_curve_uuids ri3 = []"
    using c1 by (auto simp: pop_is_active_instance_removed_event_def split: if_splits)
  let ?self1 = "self\<lparr>instance_heap := (instance_heap self)(?ref := inst'),
                        rendered_instance_heap := (rendered_instance_heap self)(r := ri3),
                        to_remove_rendered_instance :=
                          (if removed then set_add r (to_remove_rendered_instance self)
                           else to_remove_rendered_instance self)\<rparr>"
  from Cons.prems(1) up pop pr have rest:
    "update_rendered_instances calc td utc_now rs (?self1, completed) = Inr (self', completed')"
    by (simp add: Let_def)
  have "\<forall>q. completed_curve_uuids (rendered_instance_heap ?self1 q) = []"
    using Cons.prems(2) c3 by simp
  from Cons.IH [OF rest this] show ?case .
qed

lemma task_emits_no_event:
  assumes "render_instance_update_task calc task_time utc_now self = Inr (self', events)"
    and "\<forall>r. completed_curve_uuids (rendered_instance_heap self r) = []"
  shows "events = []"
proof -
  from assms(1) obtain self1 completed where
    p1: "update_rendered_instances calc (task_time + 1) utc_now
           (map snd (rendered_instance_per_instance_uuid self)) (self, []) = Inr (self1, completed)"
    and ev: "events = (if CurveCompleted \<in> set (on_event_callable_per_event_type self') then
                      if completed \<noteq> [] then
                        map (\<lambda>completed_curve_uuid.
                               \<lparr>event_curve_uuid = completed_curve_uuid,
                                source_render_engine_uuid = render_engine_uuid self',
                                rendered_instance_states =
                                  get_rendered_instance_states_by_event_type self' CurveCompleted,
                                triggered_datetime = utc_now\<rparr>)
                            completed
                      else []
                    else [])"
    by (auto simp: render_instance_update_task_def split: sum.splits prod.splits option.splits)
  from update_rendered_instances_collects_nothing [OF p1 assms(2)] have "completed = []" by simp
  with ev show ?thesis by simp
qed

lemma new_RenderedInstance_fields:
  "instance_object (new_RenderedInstance a b) = a"
  "completed_curve_uuids (new_RenderedInstance a b) = []"
  "is_active_instance_removed_event (new_RenderedInstance a b) = False"
  "to_remove_parallel_curves (new_RenderedInstance a b) = []"
  by (simp_all add: new_RenderedInstance_def)

lemma king_update:
  "update get_calculated_time_delta 1 3000000 (model_instance, new_RenderedInstance 0 2)
   = Inr (model_instance\<lparr>parallel_curves := []\<rparr>,
          (new_RenderedInstance 0 2)\<lparr>node_path_pos := (0, 13 / 10, 0),
             initial_position := (0, 13 / 10, 0), position := (0, 13 / 10, 0),
             initial_rotation := (1, 0, 0), rotation := (1, 0, 0),
             initial_scale := 14, scale := 14, initial_opacity := 1, opacity := 1,
             is_active_curve_completed_event := True\<rparr>)"
  by (simp add: update_def update_curve_def model_instance_def curve_two_terms_def
      new_RenderedInstance_def get_calculated_time_delta_def try_update_position_def
      try_update_rotation_def try_update_scale_def try_update_opacity_def
      try_update_vector_def try_update_float_reference_def get_cached_factorial_def
      cached_factorials_def vec_add_def set_add_def remove_parallel_curve_def Let_def)

text \<open>
  Claim C1 says that a tick in which a curve completes, with a \<^verbatim>\<open>CurveCompleted\<close> handler
  registered, emits one event for that curve. In the source \<^verbatim>\<open>update\<close> never adds to
  \<^verbatim>\<open>__completed_curve_uuids\<close>: for a removed curve that asks for the event it assigns
  \<^verbatim>\<open>__is_active_curve_completed_event\<close>, which nothing reads, the task pops an empty set
  and the loop that builds the events has nothing to run on (\<open>task_emits_no_event\<close>).
  On the engine that renders the model instance, the tick three seconds after the start
  of its curve meets the boundary: the curve completes, its contribution is folded into
  the base position, it leaves the list of the instance, and no event is emitted.
\<close>

theorem completed_curve_emits_no_event:
  "CurveCompleted \<in> set (on_event_callable_per_event_type engine_king)
   \<and> parallel_curves (instance_heap engine_king 0) = [curve_two_terms]
   \<and> get_calculated_time_delta (start_datetime curve_two_terms)
        (effective_time_seconds curve_two_terms) 3000000 1
      = effective_time_seconds curve_two_terms
   \<and> (case render_instance_update_task get_calculated_time_delta 0 3000000 engine_king of
         Inl e \<Rightarrow> False
       | Inr (self', events) \<Rightarrow>
           parallel_curves (instance_heap self' 0) = []
           \<and> initial_position (rendered_instance_heap self' 0) = (0, 13 / 10, 0)
           \<and> is_active_curve_completed_event (rendered_instance_heap self' 0)
           \<and> completed_curve_uuids (rendered_instance_heap self' 0) = []
           \<and> events = [])"
proof -
  have heap0: "instance_heap engine_king 0 = model_instance"
    "rendered_instance_heap engine_king 0 = new_RenderedInstance 0 2"
    by (simp_all add: engine_king_def example_engine_def new_RenderEngine_def
        example_objects_def)
  have reg: "map snd (rendered_instance_per_instance_uuid engine_king) = [0]"
    "to_remove_rendered_instance engine_king = []"
    "CurveCompleted \<in> set (on_event_callable_per_event_type engine_king)"
    by (simp_all add: engine_king_def example_engine_def new_RenderEngine_def)
  have calc: "get_calculated_time_delta (start_datetime curve_two_terms)
        (effective_time_seconds curve_two_terms) 3000000 1
      = effective_time_seconds curve_two_terms"
    by (simp add: get_calculated_time_delta_def curve_two_terms_def)
  have task: "(case render_instance_update_task get_calculated_time_delta 0 3000000 engine_king of
         Inl e \<Rightarrow> False
       | Inr (self', events) \<Rightarrow>
           parallel_curves (instance_heap self' 0) = []
           \<and> initial_position (rendered_instance_heap self' 0) = (0, 13 / 10, 0)
           \<and> is_active_curve_completed_event (rendered_instance_heap self' 0)
           \<and> completed_curve_uuids (rendered_instance_heap self' 0) = []
           \<and> events = [])"
    by (simp add: render_instance_update_task_def reg heap0 king_update Let_def
        pop_completed_curve_uuids_def pop_is_active_instance_removed_event_def
        commit_removals_def new_RenderedInstance_fields)
  show ?thesis
    using reg(3) calc task by (simp add: heap0 model_instance_def)
qed

section \<open>The removal-commit phase\<close>

lemma remove_from_event_types_shrinks:
  "remove_from_event_types r es b = (b', err) \<Longrightarrow> set (b' e) \<subseteq> set (b e)"
proof (induction es arbitrary: b)
  case Nil
  then show ?case by simp
next
  case (Cons x es)
  show ?case
  proof (cases "r \<in> set (b x)")
    case True
    with Cons.prems have
      "remove_from_event_types r es (b(x := removeAll r (b x))) = (b', err)"
      by (simp add: set_remove_def)
    from Cons.IH [OF this] show ?thesis by (auto split: if_splits)
  next
    case False
    with Cons.prems show ?thesis by (simp add: set_remove_def)
  qed
qed

lemma remove_from_event_types_removes:
  "remove_from_event_types r es b = (b', None) \<Longrightarrow> e \<in> set es \<Longrightarrow> r \<notin> set (b' e)"
proof (induction es arbitrary: b)
  case Nil
  then show ?case by simp
next
  case (Cons x es)
  show ?case
  proof (cases "r \<in> set (b x)")
    case True
    with Cons.prems have rest:
      "remove_from_event_types r es (b(x := removeAll r (b x))) = (b', None)"
      by (simp add: set_remove_def)
    show ?thesis
    proof (cases "e = x")
      case True
      from remove_from_event_types_shrinks [OF rest, of x] show ?thesis
        using True by auto
    next
      case False
      with Cons.prems have "e \<in> set es" by simp
      from Cons.IH [OF rest this] show ?thesis .
    qed
  next
    case False
    with Cons.prems show ?thesis by (simp add: set_remove_def)
  qed
qed

lemma remove_rendered_instance_frame:
  assumes "remove_rendered_instance x s = (s', err)"
  shows "set (rendered_instance_per_instance_uuid s') \<subseteq> set (rendered_instance_per_instance_uuid s)"
    and "instance_per_instance_uuid s u = None \<Longrightarrow> instance_per_instance_uuid s' u = None"
    and "map_of (rendered_instance_per_instance_uuid s) u = None \<Longrightarrow>
         map_of (rendered_instance_per_instance_uuid s') u = None"
    and "set (rendered_instances_per_event_type s' e) \<subseteq> set (rendered_instances_per_event_type s e)"
    and "instance_heap s' = instance_heap s"
    and "rendered_instance_heap s' = rendered_instance_heap s"
    and "is_client s' = is_client s"
proof -
  let ?inst = "instance_heap s (instance_object (rendered_instance_heap s x))"
  let ?uuid = "instance_uuid ?inst"
  let ?s1 = "s\<lparr>rendered_instance_per_instance_uuid :=
                AList.delete ?uuid (rendered_instance_per_instance_uuid s)\<rparr>"
  let ?s2 = "?s1\<lparr>instance_per_instance_uuid := (instance_per_instance_uuid ?s1)(?uuid := None)\<rparr>"
  obtain b' e' where rb: "remove_from_event_types x (visible_event_types ?s2 ?inst)
      (rendered_instances_per_event_type ?s2) = (b', e')"
    by (cases "remove_from_event_types x (visible_event_types ?s2 ?inst)
      (rendered_instances_per_event_type ?s2)")
  have del: "set (AList.delete ?uuid (rendered_instance_per_instance_uuid s))
      \<subseteq> set (rendered_instance_per_instance_uuid s)"
    by (auto simp: AList.delete_eq)
  have cases: "s' = s \<or> s' = ?s1 \<or> s' = ?s2\<lparr>rendered_instances_per_event_type := b'\<rparr>"
    using assms rb by (auto simp: remove_rendered_instance_def Let_def split: if_splits)
  note sh = remove_from_event_types_shrinks [OF rb]
  show "set (rendered_instance_per_instance_uuid s') \<subseteq> set (rendered_instance_per_instance_uuid s)"
    using cases del by auto
  show "instance_per_instance_uuid s u = None \<Longrightarrow> instance_per_instance_uuid s' u = None"
    using cases by auto
  show "map_of (rendered_instance_per_instance_uuid s) u = None \<Longrightarrow>
         map_of (rendered_instance_per_instance_uuid s') u = None"
    using cases by (auto simp: AList.delete_conv')
  show "set (rendered_instances_per_event_type s' e) \<subseteq> set (rendered_instances_per_event_type s e)"
    using cases sh [of e] by auto
  show "instance_heap s' = instance_heap s" using cases by auto
  show "rendered_instance_heap s' = rendered_instance_heap s" using cases by auto
  show "is_client s' = is_client s" using cases by auto
qed


lemma set_all_event_types: "e \<in> set all_event_types"
  by (cases e) (simp_all add: all_event_types_def)

lemma indexed_consistently_iff:
  "indexed_consistently s \<longleftrightarrow>
     (\<forall>(u, r) \<in> set (rendered_instance_per_instance_uuid s). uuid_of s r = u)
     \<and> (\<forall>e r. r \<in> set (rendered_instances_per_event_type s e) \<longrightarrow>
           e \<in> set (visible_event_types s
                 (instance_heap s (instance_object (rendered_instance_heap s r)))))"
  using set_all_event_types
  by (auto simp: indexed_consistently_def list_all_iff)

lemma indexed_consistently_shrink:
  assumes "indexed_consistently s"
    and "set (rendered_instance_per_instance_uuid s') \<subseteq> set (rendered_instance_per_instance_uuid s)"
    and "\<And>e. set (rendered_instances_per_event_type s' e)
           \<subseteq> set (rendered_instances_per_event_type s e)"
    and "\<And>r. uuid_of s' r = uuid_of s r"
    and "\<And>r. visible_event_types s'
            (instance_heap s' (instance_object (rendered_instance_heap s' r)))
          = visible_event_types s
            (instance_heap s (instance_object (rendered_instance_heap s r)))"
  shows "indexed_consistently s'"
  using assms unfolding indexed_consistently_iff by (auto simp: subset_iff) blast+


lemma remove_rendered_instance_keeps_consistency:
  assumes "remove_rendered_instance x s = (s', err)" and "indexed_consistently s"
  shows "indexed_consistently s'"
proof (rule indexed_consistently_shrink [OF assms(2)])
  note fr = remove_rendered_instance_frame [OF assms(1)]
  show "set (rendered_instance_per_instance_uuid s') \<subseteq> set (rendered_instance_per_instance_uuid s)"
    by (rule fr(1))
  show "set (rendered_instances_per_event_type s' e)
           \<subseteq> set (rendered_instances_per_event_type s e)" for e
    by (rule fr(4))
  show "uuid_of s' r = uuid_of s r" for r
    by (simp add: uuid_of_def fr(5,6))
  show "visible_event_types s'
            (instance_heap s' (instance_object (rendered_instance_heap s' r)))
          = visible_event_types s
            (instance_heap s (instance_object (rendered_instance_heap s r)))" for r
    by (simp add: visible_event_types_def fr(5,6,7))
qed

lemma remove_rendered_instance_removes:
  assumes "remove_rendered_instance r s = (s', None)" and "indexed_consistently s"
  shows "r \<notin> snd ` set (rendered_instance_per_instance_uuid s')"
    and "map_of (rendered_instance_per_instance_uuid s') (uuid_of s r) = None"
    and "instance_per_instance_uuid s' (uuid_of s r) = None"
    and "r \<notin> set (rendered_instances_per_event_type s' e)"
proof -
  let ?inst = "instance_heap s (instance_object (rendered_instance_heap s r))"
  let ?uuid = "instance_uuid ?inst"
  let ?s1 = "s\<lparr>rendered_instance_per_instance_uuid :=
                AList.delete ?uuid (rendered_instance_per_instance_uuid s)\<rparr>"
  let ?s2 = "?s1\<lparr>instance_per_instance_uuid := (instance_per_instance_uuid ?s1)(?uuid := None)\<rparr>"
  obtain b' where rb: "remove_from_event_types r (visible_event_types ?s2 ?inst)
      (rendered_instances_per_event_type ?s2) = (b', None)"
    and s': "s' = ?s2\<lparr>rendered_instances_per_event_type := b'\<rparr>"
    using assms(1)
    by (auto simp: remove_rendered_instance_def Let_def split: if_splits prod.splits)
  have uuid: "uuid_of s r = ?uuid" by (simp add: uuid_of_def)
  have keyed: "(u, r) \<in> set (rendered_instance_per_instance_uuid s) \<Longrightarrow> u = ?uuid" for u
    using assms(2) unfolding indexed_consistently_iff uuid_of_def by auto
  show "r \<notin> snd ` set (rendered_instance_per_instance_uuid s')"
    using keyed by (auto simp: s' AList.delete_eq)
  show "map_of (rendered_instance_per_instance_uuid s') (uuid_of s r) = None"
    by (simp add: s' uuid AList.delete_conv')
  show "instance_per_instance_uuid s' (uuid_of s r) = None"
    by (simp add: s' uuid)
  show "r \<notin> set (rendered_instances_per_event_type s' e)"
  proof
    assume mem: "r \<in> set (rendered_instances_per_event_type s' e)"
    then have "r \<in> set (b' e)" by (simp add: s')
    with remove_from_event_types_shrinks [OF rb, of e]
    have "r \<in> set (rendered_instances_per_event_type s e)" by auto
    with assms(2) have "e \<in> set (visible_event_types s ?inst)"
      unfolding indexed_consistently_iff by blast
    then have "e \<in> set (visible_event_types ?s2 ?inst)"
      by (simp add: visible_event_types_def)
    from remove_from_event_types_removes [OF rb this] \<open>r \<in> set (b' e)\<close>
    show False by simp
  qed
qed

lemma remove_rendered_instances_frame:
  "remove_rendered_instances xs s = (s', err) \<Longrightarrow>
   set (rendered_instance_per_instance_uuid s') \<subseteq> set (rendered_instance_per_instance_uuid s)
   \<and> (\<forall>u. instance_per_instance_uuid s u = None \<longrightarrow> instance_per_instance_uuid s' u = None)
   \<and> (\<forall>u. map_of (rendered_instance_per_instance_uuid s) u = None \<longrightarrow>
         map_of (rendered_instance_per_instance_uuid s') u = None)
   \<and> (\<forall>e. set (rendered_instances_per_event_type s' e)
         \<subseteq> set (rendered_instances_per_event_type s e))
   \<and> instance_heap s' = instance_heap s
   \<and> rendered_instance_heap s' = rendered_instance_heap s
   \<and> is_client s' = is_client s"
proof (induction xs arbitrary: s)
  case Nil
  then show ?case by simp
next
  case (Cons x xs)
  obtain s1 e1 where a: "remove_rendered_instance x s = (s1, e1)"
    by (cases "remove_rendered_instance x s")
  note fr = remove_rendered_instance_frame [OF a]
  show ?case
  proof (cases e1)
    case None
    with Cons.prems a have "remove_rendered_instances xs s1 = (s', err)" by simp
    note ih = Cons.IH [OF this]
    have 1: "set (rendered_instance_per_instance_uuid s')
        \<subseteq> set (rendered_instance_per_instance_uuid s)"
      using ih fr(1) by blast
    have 2: "\<forall>u. instance_per_instance_uuid s u = None \<longrightarrow>
        instance_per_instance_uuid s' u = None"
      using ih fr(2) by blast
    have 3: "\<forall>u. map_of (rendered_instance_per_instance_uuid s) u = None \<longrightarrow>
         map_of (rendered_instance_per_instance_uuid s') u = None"
      using ih fr(3) by blast
    have 4: "\<forall>e. set (rendered_instances_per_event_type s' e)
         \<subseteq> set (rendered_instances_per_event_type s e)"
      using ih fr(4) by blast
    have 5: "instance_heap s' = instance_heap s"
      "rendered_instance_heap s' = rendered_instance_heap s" "is_client s' = is_client s"
      using ih fr(5) fr(6) fr(7) by simp_all
    show ?thesis using 1 2 3 4 5 by blast
  next
    case (Some e)
    with Cons.prems a have "s' = s1" by simp
    then show ?thesis
      using fr(1) fr(2) fr(3) fr(4) fr(5) fr(6) fr(7) by auto
  qed
qed

lemma remove_rendered_instances_removes:
  "remove_rendered_instances xs s = (s', None) \<Longrightarrow> indexed_consistently s \<Longrightarrow>
   r \<in> set xs \<Longrightarrow>
   r \<notin> snd ` set (rendered_instance_per_instance_uuid s')
   \<and> map_of (rendered_instance_per_instance_uuid s') (uuid_of s r) = None
   \<and> instance_per_instance_uuid s' (uuid_of s r) = None
   \<and> (\<forall>e. r \<notin> set (rendered_instances_per_event_type s' e))"
proof (induction xs arbitrary: s)
  case Nil
  then show ?case by simp
next
  case (Cons x xs)
  from Cons.prems(1) obtain s1 where a: "remove_rendered_instance x s = (s1, None)"
    and b: "remove_rendered_instances xs s1 = (s', None)"
    by (auto split: prod.splits option.splits)
  note fr = remove_rendered_instance_frame [OF a]
  have inv1: "indexed_consistently s1"
    using remove_rendered_instance_keeps_consistency [OF a Cons.prems(2)] .
  have same: "uuid_of s1 r = uuid_of s r"
    by (simp add: uuid_of_def fr(5,6))
  show ?case
  proof (cases "x = r")
    case True
    note gone = remove_rendered_instance_removes [OF a [unfolded True] Cons.prems(2)]
    note rest = remove_rendered_instances_frame [OF b]
    have sub: "set (rendered_instance_per_instance_uuid s')
        \<subseteq> set (rendered_instance_per_instance_uuid s1)"
      and subb: "\<And>e. set (rendered_instances_per_event_type s' e)
         \<subseteq> set (rendered_instances_per_event_type s1 e)"
      using rest by blast+
    have 1: "r \<notin> snd ` set (rendered_instance_per_instance_uuid s')"
      using gone(1) sub by blast
    have 2: "map_of (rendered_instance_per_instance_uuid s') (uuid_of s r) = None"
      using gone(2) rest by blast
    have 3: "instance_per_instance_uuid s' (uuid_of s r) = None"
      using gone(3) rest by blast
    have 4: "\<forall>e. r \<notin> set (rendered_instances_per_event_type s' e)"
      using gone(4) subb by blast
    show ?thesis using 1 2 3 4 by blast
  next
    case False
    with Cons.prems(3) have "r \<in> set xs" by simp
    from Cons.IH [OF b inv1 this] show ?thesis by (simp add: same)
  qed
qed


lemma remove_curves_instance:
  "remove_curves xs (inst, s) = Inr (inst', s') \<Longrightarrow>
   instance_uuid inst' = instance_uuid inst
   \<and> client_event_types inst' = client_event_types inst
   \<and> renderer_event_types inst' = renderer_event_types inst"
proof (induction xs arbitrary: inst s)
  case Nil
  then show ?case by simp
next
  case (Cons x xs)
  from Cons.prems obtain inst1 s1 where
    a: "remove_parallel_curve x inst = Inr inst1" and
    b: "remove_curves xs (inst1, s1) = Inr (inst', s')"
    by (auto split: sum.splits)
  from a have "instance_uuid inst1 = instance_uuid inst
    \<and> client_event_types inst1 = client_event_types inst
    \<and> renderer_event_types inst1 = renderer_event_types inst"
    by (auto simp: remove_parallel_curve_def split: if_splits)
  with Cons.IH [OF b] show ?case by simp
qed

lemma update_frame:
  assumes "update calc td utc_now (inst, s) = Inr (inst', s')"
  shows "instance_uuid inst' = instance_uuid inst"
    and "client_event_types inst' = client_event_types inst"
    and "renderer_event_types inst' = renderer_event_types inst"
    and "instance_object s' = instance_object s"
proof -
  from update_Inr [OF assms] obtain s1 s3 where
    loop: "update_curves calc td utc_now (parallel_curves inst)
             (s\<lparr>position := initial_position s\<rparr>) = Inr s1"
    and rem: "remove_curves (to_remove_parallel_curves s1)
                (inst, s1\<lparr>node_path_pos := position s1\<rparr>) = Inr (inst', s3)"
    and fin: "s' = s3\<lparr>to_remove_parallel_curves := []\<rparr>"
    by blast
  show "instance_uuid inst' = instance_uuid inst"
    "client_event_types inst' = client_event_types inst"
    "renderer_event_types inst' = renderer_event_types inst"
    using remove_curves_instance [OF rem] by simp_all
  show "instance_object s' = instance_object s"
    using update_curves_marks(5) [OF loop] remove_curves_effect [OF rem] fin by simp
qed

lemma update_rendered_instances_frame:
  "update_rendered_instances calc td utc_now rs (self, completed) = Inr (self', completed') \<Longrightarrow>
   rendered_instance_per_instance_uuid self' = rendered_instance_per_instance_uuid self
   \<and> instance_per_instance_uuid self' = instance_per_instance_uuid self
   \<and> rendered_instances_per_event_type self' = rendered_instances_per_event_type self
   \<and> is_client self' = is_client self
   \<and> (\<forall>a. instance_uuid (instance_heap self' a) = instance_uuid (instance_heap self a)
          \<and> client_event_types (instance_heap self' a) = client_event_types (instance_heap self a)
          \<and> renderer_event_types (instance_heap self' a)
              = renderer_event_types (instance_heap self a))
   \<and> (\<forall>r. instance_object (rendered_instance_heap self' r)
          = instance_object (rendered_instance_heap self r))"
proof (induction rs arbitrary: self completed)
  case Nil
  then show ?case by simp
next
  case (Cons r rs)
  let ?ri = "rendered_instance_heap self r"
  let ?ref = "instance_object ?ri"
  from Cons.prems obtain inst' ri1 where
    up: "update calc td utc_now (instance_heap self ?ref, ?ri) = Inr (inst', ri1)"
    by (auto simp: Let_def split: sum.splits)
  obtain popped ri2 where pc: "pop_completed_curve_uuids ri1 = (popped, ri2)"
    by (cases "pop_completed_curve_uuids ri1")
  obtain removed ri3 where pr: "pop_is_active_instance_removed_event ri2 = (removed, ri3)"
    by (cases "pop_is_active_instance_removed_event ri2")
  have obj: "instance_object ri3 = instance_object ?ri"
    using update_frame(4) [OF up] pc pr
    by (auto simp: pop_completed_curve_uuids_def pop_is_active_instance_removed_event_def
        split: if_splits)
  let ?self1 = "self\<lparr>instance_heap := (instance_heap self)(?ref := inst'),
                        rendered_instance_heap := (rendered_instance_heap self)(r := ri3),
                        to_remove_rendered_instance :=
                          (if removed then set_add r (to_remove_rendered_instance self)
                           else to_remove_rendered_instance self)\<rparr>"
  from Cons.prems up pc pr have rest:
    "update_rendered_instances calc td utc_now rs (?self1, fold set_add popped completed)
       = Inr (self', completed')"
    by (simp add: Let_def)
  note ih = Cons.IH [OF rest]
  have heap: "\<forall>a. instance_uuid (instance_heap ?self1 a) = instance_uuid (instance_heap self a)
          \<and> client_event_types (instance_heap ?self1 a) = client_event_types (instance_heap self a)
          \<and> renderer_event_types (instance_heap ?self1 a)
              = renderer_event_types (instance_heap self a)"
    using update_frame(1,2,3) [OF up] by simp
  have rheap: "\<forall>q. instance_object (rendered_instance_heap ?self1 q)
          = instance_object (rendered_instance_heap self q)"
    using obj by simp
  show ?case using ih heap rheap by simp
qed

lemma update_rendered_instances_keeps_consistency:
  assumes "update_rendered_instances calc td utc_now rs (self, completed) = Inr (self', completed')"
    and "indexed_consistently self"
  shows "indexed_consistently self'" and "uuid_of self' r = uuid_of self r"
proof -
  note fr = update_rendered_instances_frame [OF assms(1)]
  show u: "uuid_of self' r = uuid_of self r" for r
    using fr by (simp add: uuid_of_def)
  show "indexed_consistently self'"
  proof (rule indexed_consistently_shrink [OF assms(2)])
    show "set (rendered_instance_per_instance_uuid self')
        \<subseteq> set (rendered_instance_per_instance_uuid self)"
      using fr by simp
    show "set (rendered_instances_per_event_type self' e)
           \<subseteq> set (rendered_instances_per_event_type self e)" for e
      using fr by simp
    show "uuid_of self' q = uuid_of self q" for q by (rule u)
    show "visible_event_types self'
            (instance_heap self' (instance_object (rendered_instance_heap self' q)))
          = visible_event_types self
            (instance_heap self (instance_object (rendered_instance_heap self q)))" for q
      using fr by (simp add: visible_event_types_def)
  qed
qed

lemma engine_twice_reachable:
  "render_instances [0]
     (new_RenderEngine ''engine'' False [''model''] [''font''] [] [CurveCompleted]
        (\<lambda>ref. duplicate_instance))
   = Inr engine_twice"
  by (simp add: engine_twice_def engine_king_def example_engine_def new_RenderEngine_def
      render_instance_def duplicate_instance_def zero_remove_instance_def model_instance_def
      make_node_path_def Let_def visible_event_types_def set_add_def fun_upd_twist)

lemma expiring_update:
  "update get_calculated_time_delta 1 5
     (zero_remove_instance\<lparr>renderer_event_types := evs\<rparr>, new_RenderedInstance 0 2)
   = Inr (zero_remove_instance\<lparr>renderer_event_types := evs, parallel_curves := []\<rparr>,
          (new_RenderedInstance 0 2)\<lparr>is_active_curve_completed_event := True,
             is_active_instance_removed_event := True\<rparr>)"
  by (simp add: update_def update_curve_def zero_remove_instance_def model_instance_def
      curve_zero_remove_def curve_zero_def new_RenderedInstance_def set_add_def
      remove_parallel_curve_def Let_def)

lemma engine_twice_consistent: "indexed_consistently engine_twice"
  by (simp add: indexed_consistently_def all_event_types_def engine_twice_def engine_king_def
      example_engine_def new_RenderEngine_def uuid_of_def visible_event_types_def
      duplicate_instance_def zero_remove_instance_def model_instance_def
      new_RenderedInstance_fields)

lemma engine_expiring_consistent: "indexed_consistently engine_expiring"
  by (simp add: indexed_consistently_def all_event_types_def engine_expiring_def engine_king_def
      example_engine_def new_RenderEngine_def uuid_of_def visible_event_types_def
      zero_remove_instance_def model_instance_def new_RenderedInstance_fields)

text \<open>
  Where the registry and the buckets are consistent, the first loop of the tick returns
  and flags the rendered instance \<open>r\<close>, and the removal-commit phase runs to its end,
  \<open>r\<close> is afterwards not a value of the registry of rendered instances, the uuid of
  its instance is a key of neither registry, and \<open>r\<close> is in the bucket of no event
  type; this state is the one the tick returns. The engine whose instance expires at
  once and lists one event type is an example.
\<close>

lemma flagged_instance_leaves_every_index:
  assumes "indexed_consistently self"
    and "update_rendered_instances calc (task_time + 1) utc_now
           (map snd (rendered_instance_per_instance_uuid self)) (self, [])
         = Inr (self1, completed)"
    and "r \<in> set (to_remove_rendered_instance self1)"
    and "commit_removals self1 = (self2, None)"
  shows "r \<notin> snd ` set (rendered_instance_per_instance_uuid self2)
    \<and> map_of (rendered_instance_per_instance_uuid self2) (uuid_of self r) = None
    \<and> instance_per_instance_uuid self2 (uuid_of self r) = None
    \<and> (\<forall>event_type. r \<notin> set (rendered_instances_per_event_type self2 event_type))
    \<and> (\<exists>events. render_instance_update_task calc task_time utc_now self = Inr (self2, events))"
proof -
  note inv1 = update_rendered_instances_keeps_consistency [OF assms(2) assms(1)]
  from assms(3) have ne: "to_remove_rendered_instance self1 \<noteq> []" by auto
  with assms(4) obtain s' where
    rem: "remove_rendered_instances (to_remove_rendered_instance self1) self1 = (s', None)"
    and s2: "self2 = s'\<lparr>to_remove_rendered_instance := []\<rparr>"
    by (auto simp: commit_removals_def split: prod.splits option.splits)
  note gone = remove_rendered_instances_removes [OF rem inv1(1) assms(3)]
  have task: "\<exists>events. render_instance_update_task calc task_time utc_now self = Inr (self2, events)"
    using assms(2,4) by (simp add: render_instance_update_task_def)
  show ?thesis
    using gone task by (simp add: s2 inv1(2))
qed

lemma flagged_instance_leaves_every_index_example:
  "indexed_consistently engine_expiring
   \<and> uuid_of engine_expiring 0 = ''king''
   \<and> (case update_rendered_instances get_calculated_time_delta (0 + 1) 5
              (map snd (rendered_instance_per_instance_uuid engine_expiring))
              (engine_expiring, []) of
         Inl e \<Rightarrow> False
       | Inr (self1, completed) \<Rightarrow>
           0 \<in> set (to_remove_rendered_instance self1)
           \<and> (case commit_removals self1 of
                 (self2, err) \<Rightarrow>
                   err = None
                   \<and> 0 \<notin> snd ` set (rendered_instance_per_instance_uuid self2)
                   \<and> map_of (rendered_instance_per_instance_uuid self2) ''king'' = None
                   \<and> instance_per_instance_uuid self2 ''king'' = None
                   \<and> (\<forall>event_type.
                         0 \<notin> set (rendered_instances_per_event_type self2 event_type))))"
proof -
  let ?s1 = "engine_expiring
        \<lparr>instance_heap := (instance_heap engine_expiring)
           (0 := zero_remove_instance\<lparr>renderer_event_types := [CurveCompleted],
                   parallel_curves := []\<rparr>),
         rendered_instance_heap := (rendered_instance_heap engine_expiring)
           (0 := (new_RenderedInstance 0 2)\<lparr>is_active_curve_completed_event := True,
                   is_active_instance_removed_event := False\<rparr>),
         to_remove_rendered_instance := [0]\<rparr>"
  let ?s2 = "?s1\<lparr>rendered_instance_per_instance_uuid := [],
         instance_per_instance_uuid := Map.empty,
         rendered_instances_per_event_type := (\<lambda>event_type. []),
         to_remove_rendered_instance := []\<rparr>"
  have heap0: "instance_heap engine_expiring a = zero_remove_instance
      \<lparr>renderer_event_types := [CurveCompleted]\<rparr>"
    "rendered_instance_heap engine_expiring 0 = new_RenderedInstance 0 2" for a
    by (simp_all add: engine_expiring_def engine_king_def example_engine_def new_RenderEngine_def
        zero_remove_instance_def model_instance_def)
  have reg: "map snd (rendered_instance_per_instance_uuid engine_expiring) = [0]"
    "to_remove_rendered_instance engine_expiring = []"
    by (simp_all add: engine_expiring_def engine_king_def example_engine_def new_RenderEngine_def)
  have uuid: "uuid_of engine_expiring 0 = ''king''"
    by (simp add: uuid_of_def heap0 new_RenderedInstance_fields zero_remove_instance_def
        model_instance_def)
  have p1: "update_rendered_instances get_calculated_time_delta (0 + 1) 5
      (map snd (rendered_instance_per_instance_uuid engine_expiring)) (engine_expiring, [])
    = Inr (?s1, [])"
    by (simp add: heap0 reg expiring_update Let_def new_RenderedInstance_fields
        pop_completed_curve_uuids_def pop_is_active_instance_removed_event_def set_add_def)
  have flagged: "0 \<in> set (to_remove_rendered_instance ?s1)" by simp
  have commit: "commit_removals ?s1 = (?s2, None)"
    by (simp add: commit_removals_def remove_rendered_instance_def Let_def
        new_RenderedInstance_fields visible_event_types_def zero_remove_instance_def
        model_instance_def set_remove_def engine_expiring_def engine_king_def example_engine_def
        new_RenderEngine_def fun_eq_iff)
  from flagged_instance_leaves_every_index [OF engine_expiring_consistent p1 flagged commit]
  show ?thesis
    unfolding p1 using engine_expiring_consistent flagged
    by (simp add: commit uuid)
qed

text \<open>
  Claim C9 says that every rendered instance flagged during a tick is, after the
  removal-commit phase, absent from both registries and from every bucket it was indexed
  under, so that no enumeration of subscribers yields it. The source does not reach that
  for an instance whose list of event types names a type twice: \<^verbatim>\<open>render_instances\<close>
  adds it to the bucket of that type once, since adding to a set is idempotent, while the
  commit phase calls \<^verbatim>\<open>remove\<close> on that bucket once per entry of the list, and the
  second call raises \<^verbatim>\<open>KeyError\<close>. The phase ends there: the instance is out of both
  registries and still in the buckets of the event types that follow in its list, the
  removal set is not cleared, and the commit raises again when it is run on that state.
\<close>

theorem repeated_event_type_leaves_subscription:
  "indexed_consistently engine_twice
   \<and> (case update_rendered_instances get_calculated_time_delta 1 5
              (map snd (rendered_instance_per_instance_uuid engine_twice)) (engine_twice, []) of
         Inl e \<Rightarrow> False
       | Inr (self1, completed) \<Rightarrow>
           to_remove_rendered_instance self1 = [0]
           \<and> (case commit_removals self1 of
                 (self2, err) \<Rightarrow>
                   err = Some KeyError
                   \<and> rendered_instance_per_instance_uuid self2 = []
                   \<and> instance_per_instance_uuid self2 ''king'' = None
                   \<and> rendered_instances_per_event_type self2 CurveCompleted = []
                   \<and> rendered_instances_per_event_type self2 MouseMoved = [0]
                   \<and> to_remove_rendered_instance self2 = [0]
                   \<and> snd (commit_removals self2) = Some KeyError))
   \<and> render_instance_update_task get_calculated_time_delta 0 5 engine_twice = Inl KeyError"
proof -
  let ?s1 = "engine_twice
        \<lparr>instance_heap := (instance_heap engine_twice)
           (0 := zero_remove_instance\<lparr>renderer_event_types :=
                   [CurveCompleted, CurveCompleted, MouseMoved], parallel_curves := []\<rparr>),
         rendered_instance_heap := (rendered_instance_heap engine_twice)
           (0 := (new_RenderedInstance 0 2)\<lparr>is_active_curve_completed_event := True,
                   is_active_instance_removed_event := False\<rparr>),
         to_remove_rendered_instance := [0]\<rparr>"
  let ?s2 = "engine_twice
        \<lparr>instance_heap := (instance_heap engine_twice)
           (0 := zero_remove_instance\<lparr>renderer_event_types :=
                   [CurveCompleted, CurveCompleted, MouseMoved], parallel_curves := []\<rparr>),
         rendered_instance_heap := (rendered_instance_heap engine_twice)
           (0 := (new_RenderedInstance 0 2)\<lparr>is_active_curve_completed_event := True,
                   is_active_instance_removed_event := False\<rparr>),
         to_remove_rendered_instance := [0],
         rendered_instance_per_instance_uuid := [],
         instance_per_instance_uuid := Map.empty,
         rendered_instances_per_event_type := (\<lambda>event_type. [])(MouseMoved := [0])\<rparr>"
  have heap0: "instance_heap engine_twice a = zero_remove_instance
      \<lparr>renderer_event_types := [CurveCompleted, CurveCompleted, MouseMoved]\<rparr>"
    "rendered_instance_heap engine_twice 0 = new_RenderedInstance 0 2" for a
    by (simp_all add: engine_twice_def engine_king_def example_engine_def new_RenderEngine_def
        duplicate_instance_def)
  have reg: "map snd (rendered_instance_per_instance_uuid engine_twice) = [0]"
    "to_remove_rendered_instance engine_twice = []"
    by (simp_all add: engine_twice_def engine_king_def example_engine_def new_RenderEngine_def)
  have p1: "update_rendered_instances get_calculated_time_delta 1 5 [0] (engine_twice, [])
    = Inr (?s1, [])"
    by (simp add: heap0 reg expiring_update Let_def new_RenderedInstance_fields
        pop_completed_curve_uuids_def pop_is_active_instance_removed_event_def set_add_def)
  have commit: "commit_removals ?s1 = (?s2, Some KeyError)"
    by (simp add: commit_removals_def remove_rendered_instance_def Let_def
        new_RenderedInstance_fields visible_event_types_def zero_remove_instance_def
        model_instance_def set_remove_def engine_twice_def engine_king_def example_engine_def
        new_RenderEngine_def fun_eq_iff)
  have again: "snd (commit_removals ?s2) = Some KeyError"
    by (simp add: commit_removals_def remove_rendered_instance_def Let_def
        new_RenderedInstance_fields zero_remove_instance_def model_instance_def)
  have one: "(0::real) + 1 = 1" by simp
  show ?thesis
    unfolding render_instance_update_task_def one reg p1
    using engine_twice_consistent again by (simp add: commit)
qed

section \<open>Round trip of an instance delta\<close>

lemma InstanceDeltaTypeEnum_of_value:
  "InstanceDeltaTypeEnum_of (JStr (InstanceDeltaTypeEnum_value t)) = Inr t"
  by (cases t) (simp_all add: InstanceDeltaTypeEnum_of_def)

lemma InstanceDelta_to_json_tag:
  "map_of (InstanceDelta_to_json d) ''instance_delta_type''
   = Some (JStr (InstanceDeltaTypeEnum_value (get_instance_delta_type d)))"
  by (simp add: InstanceDelta_to_json_def)

text \<open>
  Claim C8 says that \<^verbatim>\<open>to_json\<close> followed by \<^verbatim>\<open>parse_json\<close> gives back an equal value, for
  deltas as for curves, instances and events. For a delta the source does neither half:
  \<^verbatim>\<open>to_json\<close> writes the two uuids and the tag and leaves out the curves or the text,
  so that deltas with different payloads serialize to the same dictionary; and
  \<^verbatim>\<open>parse_json\<close> on the dictionary of any delta calls itself until the interpreter
  raises \<^verbatim>\<open>RecursionError\<close>, whatever the number of frames allowed. The classes of
  curves, instances and events each define both methods.
\<close>

theorem instance_delta_round_trip_fails:
  "InstanceDelta_parse_json frames (InstanceDelta_to_json d) = Inl RecursionError
   \<and> InstanceDelta_to_json (SetTextInstanceDelta ''hello'' ''d1'' ''label'')
       = InstanceDelta_to_json (SetTextInstanceDelta ''bye'' ''d1'' ''label'')
   \<and> InstanceDelta_to_json (AppendParallelCurvesInstanceDelta [curve_two_terms] ''d2'' ''king'')
       = InstanceDelta_to_json (AppendParallelCurvesInstanceDelta [] ''d2'' ''king'')"
proof -
  have "InstanceDelta_parse_json frames (InstanceDelta_to_json d) = Inl RecursionError"
  proof (induction frames)
    case 0
    show ?case by simp
  next
    case (Suc frames)
    then show ?case
      by (cases "get_instance_delta_type d")
         (simp_all add: InstanceDelta_to_json_tag InstanceDeltaTypeEnum_of_value [of AppendParallelCurves, simplified]
            InstanceDeltaTypeEnum_of_value [of SetParallelCurves, simplified]
            InstanceDeltaTypeEnum_of_value [of SetText, simplified])
  qed
  then show ?thesis by (simp add: InstanceDelta_to_json_def)
qed

section \<open>The consistency is an invariant of the engine\<close>

lemma rendered_instances_allocated_iff:
  "rendered_instances_allocated s \<longleftrightarrow>
     (\<forall>(u, r) \<in> set (rendered_instance_per_instance_uuid s). r < next_rendered_instance s)
     \<and> (\<forall>e r. r \<in> set (rendered_instances_per_event_type s e) \<longrightarrow>
           r < next_rendered_instance s)"
  using set_all_event_types
  by (auto simp: rendered_instances_allocated_def list_all_iff)

lemma new_RenderEngine_consistent:
  "indexed_consistently (new_RenderEngine uuid client ms fs ims handlers objects)"
  "rendered_instances_allocated (new_RenderEngine uuid client ms fs ims handlers objects)"
  by (simp_all add: indexed_consistently_iff rendered_instances_allocated_iff
      new_RenderEngine_def)

lemma set_AList_update: "set (AList.update k v al) \<subseteq> insert (k, v) (set al)"
  by (induction al) auto

lemma set_add_to_event_types:
  "set (add_to_event_types r es b e) = (if e \<in> set es then insert r (set (b e)) else set (b e))"
  by (induction es arbitrary: b) (auto simp: set_add_set)

lemma make_node_path_frame:
  "make_node_path inst s = Inr (node, s') \<Longrightarrow> s' = s \<or> s' = s\<lparr>next_node_path := Suc (next_node_path s)\<rparr>"
  by (auto simp: make_node_path_def split: InstanceVariant.splits if_splits)

lemma render_instance_keeps_consistency:
  assumes "render_instance ref s = Inr s'"
    and inv: "indexed_consistently s" and alloc: "rendered_instances_allocated s"
  shows "indexed_consistently s' \<and> rendered_instances_allocated s'"
proof -
  let ?inst = "instance_heap s ref"
  let ?uuid = "instance_uuid ?inst"
  let ?s1 = "s\<lparr>instance_per_instance_uuid := (instance_per_instance_uuid s)(?uuid \<mapsto> ref)\<rparr>"
  from assms(1) obtain node s2 where mk: "make_node_path ?inst ?s1 = Inr (node, s2)"
    by (auto simp: render_instance_def Let_def split: sum.splits option.splits)
  from make_node_path_frame [OF mk] have s2:
    "rendered_instance_per_instance_uuid s2 = rendered_instance_per_instance_uuid s"
    "rendered_instances_per_event_type s2 = rendered_instances_per_event_type s"
    "instance_heap s2 = instance_heap s" "rendered_instance_heap s2 = rendered_instance_heap s"
    "is_client s2 = is_client s" "next_rendered_instance s2 = next_rendered_instance s"
    by auto
  have inv2: "indexed_consistently s2" "rendered_instances_allocated s2"
    using inv alloc
    by (simp_all add: indexed_consistently_iff rendered_instances_allocated_iff s2 uuid_of_def
        visible_event_types_def)
  show ?thesis
  proof (cases node)
    case None
    with assms(1) mk have "s' = s2"
      by (auto simp: render_instance_def Let_def split: sum.splits option.splits)
    with inv2 show ?thesis by simp
  next
    case (Some n)
    let ?r = "next_rendered_instance s"
    from assms(1) mk Some have s': "s' = s2\<lparr>rendered_instance_heap :=
                                  (rendered_instance_heap s2)(?r := new_RenderedInstance ref n),
                                next_rendered_instance := Suc ?r,
                                rendered_instance_per_instance_uuid :=
                                  AList.update ?uuid ?r (rendered_instance_per_instance_uuid s2),
                                rendered_instances_per_event_type :=
                                  add_to_event_types ?r (visible_event_types s2 ?inst)
                                    (rendered_instances_per_event_type s2)\<rparr>"
      by (auto simp: render_instance_def Let_def s2 split: sum.splits option.splits)
    have old_reg: "(u, q) \<in> set (rendered_instance_per_instance_uuid s) \<Longrightarrow>
        q < ?r \<and> uuid_of s q = u" for u q
      using inv alloc unfolding indexed_consistently_iff rendered_instances_allocated_iff
      by auto
    have old_bucket: "q \<in> set (rendered_instances_per_event_type s e) \<Longrightarrow>
        q < ?r \<and> e \<in> set (visible_event_types s
                 (instance_heap s (instance_object (rendered_instance_heap s q))))" for e q
      using inv alloc unfolding indexed_consistently_iff rendered_instances_allocated_iff
      by auto
    have vis: "visible_event_types s' i = visible_event_types s i" for i
      by (simp add: visible_event_types_def s' s2)
    have new_reg: "(u, q) \<in> set (rendered_instance_per_instance_uuid s') \<Longrightarrow>
        (u = ?uuid \<and> q = ?r) \<or> (u, q) \<in> set (rendered_instance_per_instance_uuid s)" for u q
      using set_AList_update [of ?uuid ?r "rendered_instance_per_instance_uuid s"]
      by (auto simp: s' s2)
    have new_bucket: "q \<in> set (rendered_instances_per_event_type s' e) \<Longrightarrow>
        (q = ?r \<and> e \<in> set (visible_event_types s ?inst))
        \<or> q \<in> set (rendered_instances_per_event_type s e)" for e q
      by (auto simp: s' s2 set_add_to_event_types visible_event_types_def split: if_splits)
    have a: "\<forall>(u, q) \<in> set (rendered_instance_per_instance_uuid s'). uuid_of s' q = u"
    proof clarify
      fix u q assume "(u, q) \<in> set (rendered_instance_per_instance_uuid s')"
      from new_reg [OF this] show "uuid_of s' q = u"
      proof
        assume "u = ?uuid \<and> q = ?r"
        then show ?thesis
          by (simp add: uuid_of_def s' s2 new_RenderedInstance_fields)
      next
        assume "(u, q) \<in> set (rendered_instance_per_instance_uuid s)"
        from old_reg [OF this] show ?thesis
          by (auto simp: uuid_of_def s' s2)
      qed
    qed
    have b: "\<forall>e q. q \<in> set (rendered_instances_per_event_type s' e) \<longrightarrow>
           e \<in> set (visible_event_types s'
                 (instance_heap s' (instance_object (rendered_instance_heap s' q))))"
    proof (intro allI impI)
      fix e q assume "q \<in> set (rendered_instances_per_event_type s' e)"
      from new_bucket [OF this]
      show "e \<in> set (visible_event_types s'
                 (instance_heap s' (instance_object (rendered_instance_heap s' q))))"
      proof
        assume "q = ?r \<and> e \<in> set (visible_event_types s ?inst)"
        then show ?thesis
          by (simp add: vis) (simp add: s' s2 new_RenderedInstance_fields)
      next
        assume "q \<in> set (rendered_instances_per_event_type s e)"
        from old_bucket [OF this] show ?thesis
          by (simp add: vis) (auto simp: s' s2)
      qed
    qed
    have c: "\<forall>(u, q) \<in> set (rendered_instance_per_instance_uuid s').
        q < next_rendered_instance s'"
    proof clarify
      fix u q assume "(u, q) \<in> set (rendered_instance_per_instance_uuid s')"
      from new_reg [OF this] old_reg [of u q] show "q < next_rendered_instance s'"
        by (auto simp: s')
    qed
    have d: "\<forall>e q. q \<in> set (rendered_instances_per_event_type s' e) \<longrightarrow>
        q < next_rendered_instance s'"
    proof (intro allI impI)
      fix e q assume "q \<in> set (rendered_instances_per_event_type s' e)"
      from new_bucket [OF this] old_bucket [of q e] show "q < next_rendered_instance s'"
        by (auto simp: s')
    qed
    show ?thesis
      unfolding indexed_consistently_iff rendered_instances_allocated_iff
      using a b c d by blast
  qed
qed

lemma render_instances_keep_consistency:
  "render_instances refs s = Inr s' \<Longrightarrow> indexed_consistently s \<Longrightarrow>
   rendered_instances_allocated s \<Longrightarrow>
   indexed_consistently s' \<and> rendered_instances_allocated s'"
proof (induction refs arbitrary: s)
  case Nil
  then show ?case by simp
next
  case (Cons ref refs)
  from Cons.prems(1) obtain s1 where a: "render_instance ref s = Inr s1"
    and b: "render_instances refs s1 = Inr s'"
    by (auto split: sum.splits)
  from render_instance_keeps_consistency [OF a Cons.prems(2,3)] Cons.IH [OF b]
  show ?case by blast
qed

lemma update_rendered_instances_next:
  "update_rendered_instances calc td utc_now rs (self, completed) = Inr (self', completed') \<Longrightarrow>
   next_rendered_instance self' = next_rendered_instance self"
proof (induction rs arbitrary: self completed)
  case Nil
  then show ?case by simp
next
  case (Cons r rs)
  from Cons.prems obtain s1 c1 where
    rest: "update_rendered_instances calc td utc_now rs (s1, c1) = Inr (self', completed')"
    and n: "next_rendered_instance s1 = next_rendered_instance self"
    by (auto simp: Let_def split: sum.splits prod.splits)
  from Cons.IH [OF rest] n show ?case by simp
qed

lemma remove_rendered_instance_next:
  "remove_rendered_instance x s = (s', err) \<Longrightarrow>
   next_rendered_instance s' = next_rendered_instance s"
  by (auto simp: remove_rendered_instance_def Let_def split: if_splits prod.splits)

lemma remove_rendered_instances_next:
  "remove_rendered_instances xs s = (s', err) \<Longrightarrow>
   next_rendered_instance s' = next_rendered_instance s"
proof (induction xs arbitrary: s)
  case Nil
  then show ?case by simp
next
  case (Cons x xs)
  obtain s1 e1 where a: "remove_rendered_instance x s = (s1, e1)"
    by (cases "remove_rendered_instance x s")
  show ?case
  proof (cases e1)
    case None
    with Cons.prems a have "remove_rendered_instances xs s1 = (s', err)" by simp
    from Cons.IH [OF this] remove_rendered_instance_next [OF a] show ?thesis by simp
  next
    case (Some e)
    with Cons.prems a have "s' = s1" by simp
    with remove_rendered_instance_next [OF a] show ?thesis by simp
  qed
qed

lemma remove_rendered_instances_keep_consistency:
  assumes "remove_rendered_instances xs s = (s', err)" and "indexed_consistently s"
  shows "indexed_consistently s'"
proof (rule indexed_consistently_shrink [OF assms(2)])
  note fr = remove_rendered_instances_frame [OF assms(1)]
  show "set (rendered_instance_per_instance_uuid s') \<subseteq> set (rendered_instance_per_instance_uuid s)"
    using fr by blast
  show "set (rendered_instances_per_event_type s' e)
           \<subseteq> set (rendered_instances_per_event_type s e)" for e
    using fr by blast
  show "uuid_of s' r = uuid_of s r" for r
    using fr by (simp add: uuid_of_def)
  show "visible_event_types s'
            (instance_heap s' (instance_object (rendered_instance_heap s' r)))
          = visible_event_types s
            (instance_heap s (instance_object (rendered_instance_heap s r)))" for r
    using fr by (simp add: visible_event_types_def)
qed

lemma task_keeps_consistency:
  assumes "render_instance_update_task calc task_time utc_now s = Inr (s', events)"
    and inv: "indexed_consistently s" and alloc: "rendered_instances_allocated s"
  shows "indexed_consistently s' \<and> rendered_instances_allocated s'
    \<and> to_remove_rendered_instance s' = []"
proof -
  from assms(1) obtain s1 completed where
    p1: "update_rendered_instances calc (task_time + 1) utc_now
           (map snd (rendered_instance_per_instance_uuid s)) (s, []) = Inr (s1, completed)"
    and commit: "commit_removals s1 = (s', None)"
    by (auto simp: render_instance_update_task_def split: sum.splits prod.splits option.splits)
  note fr1 = update_rendered_instances_frame [OF p1]
  have inv1: "indexed_consistently s1"
    using update_rendered_instances_keeps_consistency(1) [OF p1 inv] .
  have alloc1: "rendered_instances_allocated s1"
    using alloc fr1 update_rendered_instances_next [OF p1]
    by (simp add: rendered_instances_allocated_iff)
  show ?thesis
  proof (cases "to_remove_rendered_instance s1 = []")
    case True
    with commit have "s' = s1" by (simp add: commit_removals_def)
    with inv1 alloc1 True show ?thesis by simp
  next
    case False
    with commit obtain s2 where
      rem: "remove_rendered_instances (to_remove_rendered_instance s1) s1 = (s2, None)"
      and s': "s' = s2\<lparr>to_remove_rendered_instance := []\<rparr>"
      by (auto simp: commit_removals_def split: prod.splits option.splits)
    note fr2 = remove_rendered_instances_frame [OF rem]
    have inv2: "indexed_consistently s2"
      using remove_rendered_instances_keep_consistency [OF rem inv1] .
    have sub: "set (rendered_instance_per_instance_uuid s2)
        \<subseteq> set (rendered_instance_per_instance_uuid s1)"
      and subb: "\<And>e. set (rendered_instances_per_event_type s2 e)
         \<subseteq> set (rendered_instances_per_event_type s1 e)"
      using fr2 by blast+
    have alloc2: "rendered_instances_allocated s2"
      unfolding rendered_instances_allocated_iff
    proof (intro conjI allI impI ballI)
      fix x assume "x \<in> set (rendered_instance_per_instance_uuid s2)"
      with sub have "x \<in> set (rendered_instance_per_instance_uuid s1)" by blast
      with alloc1 show "case x of (u, r) \<Rightarrow> r < next_rendered_instance s2"
        unfolding rendered_instances_allocated_iff
        by (auto simp: remove_rendered_instances_next [OF rem])
    next
      fix e r assume "r \<in> set (rendered_instances_per_event_type s2 e)"
      with subb [of e] have "r \<in> set (rendered_instances_per_event_type s1 e)" by blast
      with alloc1 show "r < next_rendered_instance s2"
        unfolding rendered_instances_allocated_iff
        by (auto simp: remove_rendered_instances_next [OF rem])
    qed
    have "indexed_consistently s'"
      using inv2 by (simp add: s' indexed_consistently_iff uuid_of_def visible_event_types_def)
    moreover have "rendered_instances_allocated s'"
      using alloc2 by (simp add: s' rendered_instances_allocated_iff)
    ultimately show ?thesis by (simp add: s')
  qed
qed

lemma apply_to_instance_frame:
  "apply_to_instance d inst = (inst', err) \<Longrightarrow>
   instance_uuid inst' = instance_uuid inst
   \<and> client_event_types inst' = client_event_types inst
   \<and> renderer_event_types inst' = renderer_event_types inst"
  by (cases d) (auto split: InstanceVariant.splits)

lemma apply_instance_deltas_keep_consistency:
  "apply_instance_deltas ds s = (s', err) \<Longrightarrow> indexed_consistently s \<Longrightarrow>
   rendered_instances_allocated s \<Longrightarrow>
   indexed_consistently s' \<and> rendered_instances_allocated s'"
proof (induction ds arbitrary: s)
  case Nil
  then show ?case by simp
next
  case (Cons d ds)
  show ?case
  proof (cases "instance_per_instance_uuid s (get_instance_uuid d)")
    case None
    with Cons.prems show ?thesis by simp
  next
    case (Some ref)
    obtain inst' e1 where ap: "apply_to_instance d (instance_heap s ref) = (inst', e1)"
      by (cases "apply_to_instance d (instance_heap s ref)")
    let ?s1 = "s\<lparr>instance_heap := (instance_heap s)(ref := inst')\<rparr>"
    note fr = apply_to_instance_frame [OF ap]
    have inv1: "indexed_consistently ?s1"
    proof (rule indexed_consistently_shrink [OF Cons.prems(2)])
      show "set (rendered_instance_per_instance_uuid ?s1)
          \<subseteq> set (rendered_instance_per_instance_uuid s)" by simp
      show "set (rendered_instances_per_event_type ?s1 e)
          \<subseteq> set (rendered_instances_per_event_type s e)" for e by simp
      show "uuid_of ?s1 r = uuid_of s r" for r
        using fr by (auto simp: uuid_of_def)
      show "visible_event_types ?s1
            (instance_heap ?s1 (instance_object (rendered_instance_heap ?s1 r)))
          = visible_event_types s
            (instance_heap s (instance_object (rendered_instance_heap s r)))" for r
        using fr by (auto simp: visible_event_types_def)
    qed
    have alloc1: "rendered_instances_allocated ?s1"
      using Cons.prems(3) by (simp add: rendered_instances_allocated_iff)
    show ?thesis
    proof (cases e1)
      case None
      with Cons.prems(1) Some ap have "apply_instance_deltas ds ?s1 = (s', err)" by simp
      from Cons.IH [OF this inv1 alloc1] show ?thesis .
    next
      case (Some e)
      with Cons.prems(1) \<open>instance_per_instance_uuid s (get_instance_uuid d) = Some ref\<close> ap
      have "s' = ?s1" by simp
      with inv1 alloc1 show ?thesis by simp
    qed
  qed
qed

end
